theory Spec2Isabelle
  imports Complex_Main
begin

section \<open>Tensors\<close>

text \<open>
  A dense tensor is a nested list, outermost dimension first. The batch dimension is the
  outermost list; an operation that torch applies to the trailing dimensions of a batched
  tensor is written for one batch element and mapped over the batch. Floating-point scores
  are real numbers wherever the code compares or multiplies them (a NaN is outside the
  model); the symmetrisation of \<open>forward\<close> is written for any scalar type with an
  addition and a zero, so that nothing but what is assumed of \<open>+\<close> enters its proofs.
  Long tensors hold integers, Bool tensors booleans.
\<close>

type_synonym 'a matrix = "'a list list"
type_synonym 'a tensor3 = "'a list list list"
type_synonym 'a tensor4 = "'a list list list list"

datatype error = IndexError | TypeError

text \<open>Sizes of the second and third dimension, read from the first row (0 when there is none).\<close>

definition size2 :: "'a list list \<Rightarrow> nat" where
  "size2 t = (case t of [] \<Rightarrow> 0 | r # _ \<Rightarrow> length r)"

definition size3 :: "'a list list list \<Rightarrow> nat" where
  "size3 t = (case t of [] \<Rightarrow> 0 | m # _ \<Rightarrow> size2 m)"

text \<open>The documented shapes: every row at every level has the stated length.\<close>

definition shape2 :: "nat \<Rightarrow> nat \<Rightarrow> 'a matrix \<Rightarrow> bool" where
  "shape2 a b t = (length t = a \<and> list_all (\<lambda>r. length r = b) t)"

definition shape3 :: "nat \<Rightarrow> nat \<Rightarrow> nat \<Rightarrow> 'a tensor3 \<Rightarrow> bool" where
  "shape3 a b c t = (length t = a \<and> list_all (shape2 b c) t)"

definition shape4 :: "nat \<Rightarrow> nat \<Rightarrow> nat \<Rightarrow> nat \<Rightarrow> 'a tensor4 \<Rightarrow> bool" where
  "shape4 a b c d t = (length t = a \<and> list_all (shape3 b c d) t)"

subsection \<open>The torch operations used by the model\<close>

text \<open>
  \<open>Tensor.triu(k)\<close> on one matrix: the entries on and above the \<open>k\<close>-th diagonal
  (\<open>j - i \<ge> k\<close>) are kept, the others are 0.
\<close>

definition triu :: "nat \<Rightarrow> 'a::zero matrix \<Rightarrow> 'a matrix" where
  "triu k M =
     map (\<lambda>i. map (\<lambda>j. if i + k \<le> j then M ! i ! j else 0) [0..<length (M ! i)])
       [0..<length M]"

text \<open>\<open>Tensor.transpose(-1, -2)\<close> on one matrix: entry \<open>(j, i)\<close> of the result is entry \<open>(i, j)\<close>.\<close>

definition transpose_last2 :: "'a matrix \<Rightarrow> 'a matrix" where
  "transpose_last2 M = map (\<lambda>j. map (\<lambda>i. M ! i ! j) [0..<length M]) [0..<size2 M]"

text \<open>
  \<open>Tensor.permute(0, 3, 1, 2)\<close> on one batch element: the last dimension comes first,
  so entry \<open>(p, q, r)\<close> of the result is entry \<open>(q, r, p)\<close> of the argument.
\<close>

definition permute_0312 :: "'a tensor3 \<Rightarrow> 'a tensor3" where
  "permute_0312 t =
     map (\<lambda>p. map (\<lambda>q. map (\<lambda>r. t ! q ! r ! p) [0..<size2 t]) [0..<length t]) [0..<size3 t]"

text \<open>
  \<open>Tensor.permute(0, 2, 3, 1)\<close> on one batch element: the first dimension goes last,
  so entry \<open>(p, q, r)\<close> of the result is entry \<open>(r, p, q)\<close> of the argument.
\<close>

definition permute_0231 :: "'a tensor3 \<Rightarrow> 'a tensor3" where
  "permute_0231 t =
     map (\<lambda>p. map (\<lambda>q. map (\<lambda>r. t ! r ! p ! q) [0..<length t]) [0..<size3 t]) [0..<size2 t]"

text \<open>Elementwise addition of two batch elements of one shape.\<close>

definition add3 :: "'a::plus tensor3 \<Rightarrow> 'a tensor3 \<Rightarrow> 'a tensor3" where
  "add3 s t = map2 (map2 (map2 (+))) s t"

section \<open>The potentials assembled by \<open>VISemanticRoleLabelingModel.forward\<close>\<close>

text \<open>
  The scorers (\<open>Biaffine\<close>, \<open>Triaffine\<close>) are not part of the two files; their outputs are
  the arguments here. For one batch element, with \<open>raw\<close> the output of \<open>sib_attn\<close>:
  \<^verbatim>\<open>s_sib = (s_sib.triu() + s_sib.triu(1).transpose(-1, -2)).permute(0, 3, 1, 2)\<close>
\<close>

definition sib_element :: "'a::{plus,zero} tensor3 \<Rightarrow> 'a tensor3" where
  "sib_element raw =
     permute_0312 (add3 (map (triu 0) raw) (map transpose_last2 (map (triu 1) raw)))"

text \<open>
  With \<open>raw\<close> the output of \<open>cop_attn\<close>:
  \<^verbatim>\<open>s_cop = self.cop_attn(pair_h, pair_d, pair_h).permute(0, 3, 1, 2)
s_cop = s_cop.triu() + s_cop.triu(1).transpose(-1, -2)\<close>
\<close>

definition cop_element :: "'a::{plus,zero} tensor3 \<Rightarrow> 'a tensor3" where
  "cop_element raw =
     (let s_cop = permute_0312 raw
      in add3 (map (triu 0) s_cop) (map transpose_last2 (map (triu 1) s_cop)))"

text \<open>
  The five tensors \<open>forward\<close> returns, from the five scorer outputs: the edge scores as
  they are, the sibling and co-parent scores symmetrised, the grandparent scores permuted
  with \<open>permute(0, 3, 1, 2)\<close> and the label scores with \<open>permute(0, 2, 3, 1)\<close>.
\<close>

definition forward ::
  "'a::{plus,zero} tensor3 \<Rightarrow> 'a tensor4 \<Rightarrow> 'a tensor4 \<Rightarrow> 'a tensor4 \<Rightarrow> 'a tensor4 \<Rightarrow>
     'a tensor3 \<times> 'a tensor4 \<times> 'a tensor4 \<times> 'a tensor4 \<times> 'a tensor4" where
  "forward edge_raw sib_raw cop_raw grd_raw label_raw =
     (let s_egde = edge_raw;
          s_sib = map sib_element sib_raw;
          s_cop = map cop_element cop_raw;
          s_grd = map permute_0312 grd_raw;
          s_label = map permute_0231 label_raw
      in (s_egde, s_sib, s_cop, s_grd, s_label))"

text \<open>
  The layout of the returned second-order tensors is the one the source documents:
  \<open>(d->h->s)\<close> for siblings and \<open>(d->h->c)\<close> for co-parents, the dependent first and
  the head second. \<open>sib b h d d'\<close> is the sibling potential of head \<open>h\<close> with the two
  dependents \<open>d\<close> and \<open>d'\<close> in batch element \<open>b\<close>; \<open>cop b h d h'\<close> is the co-parent
  potential of dependent \<open>d\<close> with the two heads \<open>h\<close> and \<open>h'\<close>.
\<close>

definition sib :: "'a tensor4 \<Rightarrow> nat \<Rightarrow> nat \<Rightarrow> nat \<Rightarrow> nat \<Rightarrow> 'a" where
  "sib s_sib b h d d' = s_sib ! b ! d ! h ! d'"

definition cop :: "'a tensor4 \<Rightarrow> nat \<Rightarrow> nat \<Rightarrow> nat \<Rightarrow> nat \<Rightarrow> 'a" where
  "cop s_cop b h d h' = s_cop ! b ! d ! h ! h'"

text \<open>Two raw score tensors agree on the upper triangle of their last two dimensions.\<close>

definition upper_equal :: "nat \<Rightarrow> 'a tensor3 \<Rightarrow> 'a tensor3 \<Rightarrow> bool" where
  "upper_equal n s t =
     (\<forall>a < n. \<forall>c < n. \<forall>d < n. c \<le> d \<longrightarrow> s ! a ! c ! d = t ! a ! c ! d)"

section \<open>Errors\<close>

text \<open>
  A raised exception is a value: \<open>Inl\<close> of the error. \<open>seq\<close> runs the next step on the
  result of the previous one and passes an error through, as an uncaught exception does.
\<close>

definition seq :: "error + 'a \<Rightarrow> ('a \<Rightarrow> error + 'b) \<Rightarrow> error + 'b" where
  "seq r f = (case r of Inl e \<Rightarrow> Inl e | Inr x \<Rightarrow> f x)"

fun traverse :: "('a \<Rightarrow> error + 'b) \<Rightarrow> 'a list \<Rightarrow> error + 'b list" where
  "traverse f [] = Inr []"
| "traverse f (x # xs) =
     (case f x of
        Inl e \<Rightarrow> Inl e
      | Inr y \<Rightarrow> (case traverse f xs of Inl e \<Rightarrow> Inl e | Inr ys \<Rightarrow> Inr (y # ys)))"

section \<open>The arc mask built by the parser\<close>

text \<open>
  \<open>batch.mask\<close> is the token mask of shape \<open>[batch_size, seq_len]\<close>: true at the tokens of
  the sentence (the root at index 0 among them), false at the padding. The three methods
  \<open>_train\<close>, \<open>_evaluate\<close> and \<open>_predict\<close> build the arc mask from it in the same two lines:
  \<^verbatim>\<open>mask = mask.unsqueeze(1) & mask.unsqueeze(2)
mask[:, 0] = 0\<close>
\<close>

definition unsqueeze_1 :: "'a list \<Rightarrow> 'a matrix" where
  \<comment> \<open>one batch element of \<open>unsqueeze(1)\<close>: shape \<open>[n]\<close> to \<open>[1, n]\<close>\<close>
  "unsqueeze_1 m = [m]"

definition unsqueeze_2 :: "'a list \<Rightarrow> 'a matrix" where
  \<comment> \<open>one batch element of \<open>unsqueeze(2)\<close>: shape \<open>[n]\<close> to \<open>[n, 1]\<close>\<close>
  "unsqueeze_2 m = map (\<lambda>x. [x]) m"

text \<open>
  Broadcasting of two matrices whose sizes agree or are 1 in each dimension: a dimension of
  size 1 is read at index 0 whatever the index.
\<close>

definition broadcast_size :: "nat \<Rightarrow> nat \<Rightarrow> nat" where
  "broadcast_size a b = (if a = 1 then b else a)"

definition broadcast_nth :: "'a list \<Rightarrow> nat \<Rightarrow> 'a" where
  "broadcast_nth xs i = (if length xs = 1 then xs ! 0 else xs ! i)"

definition broadcast2 :: "('a \<Rightarrow> 'b \<Rightarrow> 'c) \<Rightarrow> 'a matrix \<Rightarrow> 'b matrix \<Rightarrow> 'c matrix" where
  "broadcast2 f s t =
     map (\<lambda>i. map (\<lambda>j. f (broadcast_nth (broadcast_nth s i) j) (broadcast_nth (broadcast_nth t i) j))
                [0..<broadcast_size (size2 s) (size2 t)])
       [0..<broadcast_size (length s) (length t)]"

text \<open>
  The assignment \<open>mask[:, 0] = 0\<close> writes false into row 0 of every batch element; it raises
  an IndexError when that dimension is empty.
\<close>

definition arc_mask :: "bool matrix \<Rightarrow> error + bool tensor3" where
  "arc_mask batch_mask =
     (let msk = map (\<lambda>m. broadcast2 (\<and>) (unsqueeze_1 m) (unsqueeze_2 m)) batch_mask
      in if list_ex (\<lambda>M. length M = 0) msk then Inl IndexError
         else Inr (map (\<lambda>M. M[0 := map (\<lambda>_. False) (M ! 0)]) msk))"

section \<open>The elementwise operations of \<open>loss\<close> and \<open>decode\<close>\<close>

definition ge :: "int tensor3 \<Rightarrow> int \<Rightarrow> bool tensor3" where
  "ge t c = map (map (map (\<lambda>x. c \<le> x))) t"

definition lt :: "real tensor3 \<Rightarrow> real \<Rightarrow> bool tensor3" where
  "lt t c = map (map (map (\<lambda>x. x < c))) t"

definition logical_and :: "bool tensor3 \<Rightarrow> bool tensor3 \<Rightarrow> bool tensor3" where
  "logical_and s t = map2 (map2 (map2 (\<and>))) s t"

definition logical_not :: "bool tensor3 \<Rightarrow> bool tensor3" where
  "logical_not t = map (map (map Not)) t"

definition long :: "bool tensor3 \<Rightarrow> int tensor3" where
  "long t = map (map (map (\<lambda>c. if c then 1 else 0))) t"

definition masked_fill :: "'a tensor3 \<Rightarrow> bool tensor3 \<Rightarrow> 'a \<Rightarrow> 'a tensor3" where
  "masked_fill t m v = map2 (map2 (map2 (\<lambda>x c. if c then v else x))) t m"

text \<open>
  Indexing with a Bool tensor over the three leading dimensions, \<open>t[m]\<close>: the entries of
  \<open>t\<close> at the positions where \<open>m\<close> is true, in row-major order.
\<close>

definition index_mask :: "'a tensor3 \<Rightarrow> bool tensor3 \<Rightarrow> 'a list" where
  "index_mask t m =
     concat (map2 (\<lambda>tb mb. concat (map2 (\<lambda>tr mr. map fst (filter snd (zip tr mr))) tb mb)) t m)"

text \<open>
  The positions of a tensor of shape \<open>[B, n, m]\<close> in row-major order, and those of them at
  which the gold label is known (not negative) and the structural mask is true.
\<close>

definition positions :: "nat \<Rightarrow> nat \<Rightarrow> nat \<Rightarrow> (nat \<times> nat \<times> nat) list" where
  "positions B n m =
     concat (map (\<lambda>b. concat (map (\<lambda>i. map (\<lambda>j. (b, i, j)) [0..<m]) [0..<n])) [0..<B])"

definition known_positions ::
  "nat \<Rightarrow> nat \<Rightarrow> nat \<Rightarrow> int tensor3 \<Rightarrow> bool tensor3 \<Rightarrow> (nat \<times> nat \<times> nat) list" where
  "known_positions B n m labels msk =
     filter (\<lambda>(b, i, j). 0 \<le> labels ! b ! i ! j \<and> msk ! b ! i ! j) (positions B n m)"

text \<open>
  \<open>argmax\<close> over a vector: the index of the first maximal entry. A vector of length 0 has
  none, and torch raises an IndexError.
\<close>

fun argmax_from :: "nat \<Rightarrow> real \<Rightarrow> nat \<Rightarrow> real list \<Rightarrow> nat" where
  "argmax_from best v i [] = best"
| "argmax_from best v i (x # xs) =
     (if v < x then argmax_from i x (Suc i) xs else argmax_from best v (Suc i) xs)"

definition argmax :: "real list \<Rightarrow> error + int" where
  "argmax xs = (case xs of [] \<Rightarrow> Inl IndexError | x # r \<Rightarrow> Inr (int (argmax_from 0 x 1 r)))"

text \<open>What it is to be the arg-max of a vector: an index of a maximal entry, the first such.\<close>

definition is_argmax :: "real list \<Rightarrow> int \<Rightarrow> bool" where
  "is_argmax v k =
     (0 \<le> k \<and> nat k < length v \<and> (\<forall>m < length v. v ! m \<le> v ! nat k) \<and>
      (\<forall>m < nat k. v ! m < v ! nat k))"

definition argmax_last :: "real tensor4 \<Rightarrow> error + int tensor3" where
  \<comment> \<open>\<open>Tensor.argmax(-1)\<close>\<close>
  "argmax_last t = traverse (traverse (traverse argmax)) t"

section \<open>The model\<close>

text \<open>
  The inference engine (\<open>MFVISemanticDependency\<close> or \<open>LBPSemanticDependency\<close> of
  \<open>supar.structs\<close>) is not part of the two files. It is a field of the model, called in two
  ways: with a target by \<open>loss\<close>, giving a loss and the marginals, and without one by
  \<open>_predict\<close>, giving the marginals. The criterion is the field that \<open>__init__\<close> sets to
  torch's \<open>CrossEntropyLoss\<close>; it takes the selected score vectors and the selected labels.
\<close>

type_synonym scores = "real tensor3 \<times> real tensor4 \<times> real tensor4 \<times> real tensor4"

record engine =
  with_target :: "scores \<Rightarrow> bool tensor3 \<Rightarrow> int tensor3 \<Rightarrow> error + real \<times> real tensor3"
  without_target :: "scores \<Rightarrow> bool tensor3 \<Rightarrow> error + real tensor3"

record model =
  interpolation :: real
  inference :: engine
  criterion :: "real matrix \<Rightarrow> int list \<Rightarrow> error + real"

text \<open>
  The two lines of \<open>__init__\<close> that configure them:
  \<^verbatim>\<open>self.inference = (MFVISemanticRoleLabeling if inference == 'mfvi' else LBPSemanticRoleLabeling)(max_iter)
self.criterion = nn.CrossEntropyLoss()\<close>
  The two engine classes and the loss of the library are parameters.
\<close>

definition init ::
  "(nat \<Rightarrow> engine) \<Rightarrow> (nat \<Rightarrow> engine) \<Rightarrow> (real matrix \<Rightarrow> int list \<Rightarrow> error + real) \<Rightarrow>
     string \<Rightarrow> nat \<Rightarrow> real \<Rightarrow> model" where
  "init MFVISemanticRoleLabeling LBPSemanticRoleLabeling CrossEntropyLoss inference_name max_iter
       interp =
     \<lparr>interpolation = interp,
      inference = (if inference_name = ''mfvi'' then MFVISemanticRoleLabeling
                   else LBPSemanticRoleLabeling) max_iter,
      criterion = CrossEntropyLoss\<rparr>"

text \<open>
  \<^verbatim>\<open>edge_mask = labels.ge(0) & mask\<close>
\<close>

definition edge_mask :: "int tensor3 \<Rightarrow> bool tensor3 \<Rightarrow> bool tensor3" where
  "edge_mask labels msk = logical_and (ge labels 0) msk"

text \<open>
  \<^verbatim>\<open>edge_mask = labels.ge(0) & mask
edge_loss, marginals = self.inference((s_egde, s_sib, s_cop, s_grd), mask, edge_mask.long())
label_loss = self.criterion(s_label[edge_mask], labels[edge_mask])
loss = self.args.interpolation * label_loss + (1 - self.args.interpolation) * edge_loss
return loss, marginals\<close>
\<close>

definition loss ::
  "model \<Rightarrow> real tensor3 \<Rightarrow> real tensor4 \<Rightarrow> real tensor4 \<Rightarrow> real tensor4 \<Rightarrow> real tensor4 \<Rightarrow>
     int tensor3 \<Rightarrow> bool tensor3 \<Rightarrow> error + real \<times> real tensor3" where
  "loss self s_egde s_sib s_cop s_grd s_label labels msk =
     (let em = edge_mask labels msk in
      seq (with_target (inference self) (s_egde, s_sib, s_cop, s_grd) msk (long em))
        (\<lambda>(edge_loss, marginals).
      seq (criterion self (index_mask s_label em) (index_mask labels em))
        (\<lambda>label_loss.
      Inr (interpolation self * label_loss + (1 - interpolation self) * edge_loss, marginals))))"

text \<open>
  \<^verbatim>\<open>return s_label.argmax(-1).masked_fill_(s_egde.lt(0.5), -1)\<close>
\<close>

definition decode :: "real tensor3 \<Rightarrow> real tensor4 \<Rightarrow> error + int tensor3" where
  "decode s_egde s_label =
     seq (argmax_last s_label) (\<lambda>a. Inr (masked_fill a (lt s_egde (1 / 2)) (- 1)))"

section \<open>One batch of the parser\<close>

text \<open>
  The body of the loop of \<open>_train\<close> and \<open>_evaluate\<close>, without the optimiser and the metric:
  the arc mask, the scores of \<open>forward\<close> (an argument here), the loss, and the decoded labels
  with \<open>-1\<close> outside the mask.
\<close>

definition train_batch ::
  "model \<Rightarrow> bool matrix \<Rightarrow> scores \<Rightarrow> real tensor4 \<Rightarrow> int tensor3 \<Rightarrow>
     error + real \<times> int tensor3" where
  "train_batch self batch_mask sc s_label labels =
     (case sc of (s_edge, s_sib, s_cop, s_grd) \<Rightarrow>
      seq (arc_mask batch_mask) (\<lambda>msk.
      seq (loss self s_edge s_sib s_cop s_grd s_label labels msk) (\<lambda>(l, s_edge).
      seq (decode s_edge s_label) (\<lambda>label_preds.
      Inr (l, masked_fill label_preds (logical_not msk) (- 1))))))"

text \<open>The body of the loop of \<open>_predict\<close>, up to the decoded labels.\<close>

definition predict_batch ::
  "model \<Rightarrow> bool matrix \<Rightarrow> scores \<Rightarrow> real tensor4 \<Rightarrow> error + int tensor3" where
  "predict_batch self batch_mask sc s_label =
     seq (arc_mask batch_mask) (\<lambda>msk.
     seq (without_target (inference self) sc msk) (\<lambda>s_edge.
     seq (decode s_edge s_label) (\<lambda>label_preds.
     Inr (masked_fill label_preds (logical_not msk) (- 1)))))"


section \<open>Tensors in memory\<close>

text \<open>
  Whether a call changes a tensor of its caller is a question about objects, not values.
  A store holds the tensors that exist; a tensor object is its address in the store.
  A torch operation that returns a new tensor allocates a fresh address; an in-place
  operation (\<open>masked_fill_\<close>) overwrites the tensor at the address it is called on. An
  address that holds no tensor of the dtype and rank the operation is documented for is a
  \<open>TypeError\<close>.
\<close>

datatype tensor =
    Float0 real
  | Float2 "real matrix"
  | Float3 "real tensor3"
  | Float4 "real tensor4"
  | Long1 "int list"
  | Long3 "int tensor3"
  | Bool3 "bool tensor3"

type_synonym store = "tensor list"

definition alloc :: "store \<Rightarrow> tensor \<Rightarrow> store \<times> nat" where
  "alloc \<sigma> v = (\<sigma> @ [v], length \<sigma>)"

definition get_float0 :: "store \<Rightarrow> nat \<Rightarrow> error + real" where
  "get_float0 \<sigma> a =
     (if a < length \<sigma> then (case \<sigma> ! a of Float0 x \<Rightarrow> Inr x | _ \<Rightarrow> Inl TypeError)
      else Inl TypeError)"

definition get_float2 :: "store \<Rightarrow> nat \<Rightarrow> error + real matrix" where
  "get_float2 \<sigma> a =
     (if a < length \<sigma> then (case \<sigma> ! a of Float2 x \<Rightarrow> Inr x | _ \<Rightarrow> Inl TypeError)
      else Inl TypeError)"

definition get_float3 :: "store \<Rightarrow> nat \<Rightarrow> error + real tensor3" where
  "get_float3 \<sigma> a =
     (if a < length \<sigma> then (case \<sigma> ! a of Float3 x \<Rightarrow> Inr x | _ \<Rightarrow> Inl TypeError)
      else Inl TypeError)"

definition get_float4 :: "store \<Rightarrow> nat \<Rightarrow> error + real tensor4" where
  "get_float4 \<sigma> a =
     (if a < length \<sigma> then (case \<sigma> ! a of Float4 x \<Rightarrow> Inr x | _ \<Rightarrow> Inl TypeError)
      else Inl TypeError)"

definition get_long1 :: "store \<Rightarrow> nat \<Rightarrow> error + int list" where
  "get_long1 \<sigma> a =
     (if a < length \<sigma> then (case \<sigma> ! a of Long1 x \<Rightarrow> Inr x | _ \<Rightarrow> Inl TypeError)
      else Inl TypeError)"

definition get_long3 :: "store \<Rightarrow> nat \<Rightarrow> error + int tensor3" where
  "get_long3 \<sigma> a =
     (if a < length \<sigma> then (case \<sigma> ! a of Long3 x \<Rightarrow> Inr x | _ \<Rightarrow> Inl TypeError)
      else Inl TypeError)"

definition get_bool3 :: "store \<Rightarrow> nat \<Rightarrow> error + bool tensor3" where
  "get_bool3 \<sigma> a =
     (if a < length \<sigma> then (case \<sigma> ! a of Bool3 x \<Rightarrow> Inr x | _ \<Rightarrow> Inl TypeError)
      else Inl TypeError)"

subsection \<open>The torch operations on the store\<close>

definition argmax_st :: "store \<Rightarrow> nat \<Rightarrow> error + store \<times> nat" where
  \<comment> \<open>\<open>t.argmax(-1)\<close>: a new Long tensor\<close>
  "argmax_st \<sigma> t = seq (get_float4 \<sigma> t) (\<lambda>x. seq (argmax_last x) (\<lambda>r. Inr (alloc \<sigma> (Long3 r))))"

definition lt_st :: "store \<Rightarrow> nat \<Rightarrow> real \<Rightarrow> error + store \<times> nat" where
  \<comment> \<open>\<open>t.lt(c)\<close>: a new Bool tensor\<close>
  "lt_st \<sigma> t c = seq (get_float3 \<sigma> t) (\<lambda>x. Inr (alloc \<sigma> (Bool3 (lt x c))))"

definition masked_fill_inplace :: "store \<Rightarrow> nat \<Rightarrow> nat \<Rightarrow> int \<Rightarrow> error + store \<times> nat" where
  \<comment> \<open>\<open>t.masked_fill_(k, v)\<close>: overwrites \<open>t\<close> and returns \<open>t\<close> itself\<close>
  "masked_fill_inplace \<sigma> t k v =
     seq (get_long3 \<sigma> t) (\<lambda>x. seq (get_bool3 \<sigma> k) (\<lambda>c.
     Inr (\<sigma>[t := Long3 (masked_fill x c v)], t)))"

definition ge_st :: "store \<Rightarrow> nat \<Rightarrow> int \<Rightarrow> error + store \<times> nat" where
  \<comment> \<open>\<open>t.ge(c)\<close>: a new Bool tensor\<close>
  "ge_st \<sigma> t c = seq (get_long3 \<sigma> t) (\<lambda>x. Inr (alloc \<sigma> (Bool3 (ge x c))))"

definition and_st :: "store \<Rightarrow> nat \<Rightarrow> nat \<Rightarrow> error + store \<times> nat" where
  \<comment> \<open>\<open>s & t\<close>: a new Bool tensor\<close>
  "and_st \<sigma> s t =
     seq (get_bool3 \<sigma> s) (\<lambda>x. seq (get_bool3 \<sigma> t) (\<lambda>y.
     Inr (alloc \<sigma> (Bool3 (logical_and x y)))))"

definition long_st :: "store \<Rightarrow> nat \<Rightarrow> error + store \<times> nat" where
  \<comment> \<open>\<open>t.long()\<close> of a Bool tensor: a new Long tensor\<close>
  "long_st \<sigma> t = seq (get_bool3 \<sigma> t) (\<lambda>x. Inr (alloc \<sigma> (Long3 (long x))))"

definition index_float_st :: "store \<Rightarrow> nat \<Rightarrow> nat \<Rightarrow> error + store \<times> nat" where
  \<comment> \<open>\<open>t[k]\<close> for a Float tensor of rank 4 and a Bool tensor of rank 3: a new tensor\<close>
  "index_float_st \<sigma> t k =
     seq (get_float4 \<sigma> t) (\<lambda>x. seq (get_bool3 \<sigma> k) (\<lambda>c.
     Inr (alloc \<sigma> (Float2 (index_mask x c)))))"

definition index_long_st :: "store \<Rightarrow> nat \<Rightarrow> nat \<Rightarrow> error + store \<times> nat" where
  \<comment> \<open>\<open>t[k]\<close> for a Long tensor of rank 3 and a Bool tensor of rank 3: a new tensor\<close>
  "index_long_st \<sigma> t k =
     seq (get_long3 \<sigma> t) (\<lambda>x. seq (get_bool3 \<sigma> k) (\<lambda>c.
     Inr (alloc \<sigma> (Long1 (index_mask x c)))))"

definition mul_st :: "store \<Rightarrow> real \<Rightarrow> nat \<Rightarrow> error + store \<times> nat" where
  \<comment> \<open>\<open>c * t\<close> for a Python float and a scalar tensor: a new scalar tensor\<close>
  "mul_st \<sigma> c t = seq (get_float0 \<sigma> t) (\<lambda>x. Inr (alloc \<sigma> (Float0 (c * x))))"

definition add_st :: "store \<Rightarrow> nat \<Rightarrow> nat \<Rightarrow> error + store \<times> nat" where
  \<comment> \<open>\<open>s + t\<close> for two scalar tensors: a new scalar tensor\<close>
  "add_st \<sigma> s t =
     seq (get_float0 \<sigma> s) (\<lambda>x. seq (get_float0 \<sigma> t) (\<lambda>y. Inr (alloc \<sigma> (Float0 (x + y)))))"

definition criterion_st :: "model \<Rightarrow> store \<Rightarrow> nat \<Rightarrow> nat \<Rightarrow> error + store \<times> nat" where
  \<comment> \<open>\<open>self.criterion(input, target)\<close>, the loss of the library: a new scalar tensor\<close>
  "criterion_st self \<sigma> rows gold =
     seq (get_float2 \<sigma> rows) (\<lambda>x. seq (get_long1 \<sigma> gold) (\<lambda>y.
     seq (criterion self x y) (\<lambda>l. Inr (alloc \<sigma> (Float0 l)))))"

text \<open>
  Modelled from the spec: the call of the inference engine, whose classes
  (\<open>MFVISemanticDependency\<close>, \<open>LBPSemanticDependency\<close>) are missing from the two files. The
  spec says of it: "the Inference Engine treats every input as read-only and returns newly
  allocated outputs -- it never mutates caller-owned potentials or masks". So the call
  reads its six argument tensors and allocates the loss and the marginals.
\<close>

definition inference_st ::
  "model \<Rightarrow> store \<Rightarrow> nat \<Rightarrow> nat \<Rightarrow> nat \<Rightarrow> nat \<Rightarrow> nat \<Rightarrow> nat \<Rightarrow> error + store \<times> nat \<times> nat" where
  "inference_st self \<sigma> s_egde s_sib s_cop s_grd k target =
     seq (get_float3 \<sigma> s_egde) (\<lambda>e.
     seq (get_float4 \<sigma> s_sib) (\<lambda>s.
     seq (get_float4 \<sigma> s_cop) (\<lambda>c.
     seq (get_float4 \<sigma> s_grd) (\<lambda>g.
     seq (get_bool3 \<sigma> k) (\<lambda>m.
     seq (get_long3 \<sigma> target) (\<lambda>t.
     seq (with_target (inference self) (e, s, c, g) m t) (\<lambda>(edge_loss, marginals).
     (case alloc \<sigma> (Float0 edge_loss) of (\<sigma>1, l) \<Rightarrow>
       (case alloc \<sigma>1 (Float3 marginals) of (\<sigma>2, q) \<Rightarrow> Inr (\<sigma>2, l, q))))))))))"

subsection \<open>\<open>decode\<close> and \<open>loss\<close> on the store\<close>

text \<open>
  \<^verbatim>\<open>return s_label.argmax(-1).masked_fill_(s_egde.lt(0.5), -1)\<close>
  The receiver \<open>s_label.argmax(-1)\<close> is evaluated first, then the argument
  \<open>s_egde.lt(0.5)\<close>, then the in-place fill of the receiver, which is what is returned.
\<close>

definition decode_st :: "store \<Rightarrow> nat \<Rightarrow> nat \<Rightarrow> error + store \<times> nat" where
  "decode_st \<sigma> s_egde s_label =
     seq (argmax_st \<sigma> s_label) (\<lambda>(\<sigma>, a).
     seq (lt_st \<sigma> s_egde (1 / 2)) (\<lambda>(\<sigma>, k).
     masked_fill_inplace \<sigma> a k (- 1)))"

text \<open>
  \<^verbatim>\<open>edge_mask = labels.ge(0) & mask
edge_loss, marginals = self.inference((s_egde, s_sib, s_cop, s_grd), mask, edge_mask.long())
label_loss = self.criterion(s_label[edge_mask], labels[edge_mask])
loss = self.args.interpolation * label_loss + (1 - self.args.interpolation) * edge_loss
return loss, marginals\<close>
\<close>

definition loss_st ::
  "model \<Rightarrow> store \<Rightarrow> nat \<Rightarrow> nat \<Rightarrow> nat \<Rightarrow> nat \<Rightarrow> nat \<Rightarrow> nat \<Rightarrow> nat \<Rightarrow>
     error + store \<times> nat \<times> nat" where
  "loss_st self \<sigma> s_egde s_sib s_cop s_grd s_label labels msk =
     seq (ge_st \<sigma> labels 0) (\<lambda>(\<sigma>, known).
     seq (and_st \<sigma> known msk) (\<lambda>(\<sigma>, em).
     seq (long_st \<sigma> em) (\<lambda>(\<sigma>, target).
     seq (inference_st self \<sigma> s_egde s_sib s_cop s_grd msk target)
       (\<lambda>(\<sigma>, edge_loss, marginals).
     seq (index_float_st \<sigma> s_label em) (\<lambda>(\<sigma>, rows).
     seq (index_long_st \<sigma> labels em) (\<lambda>(\<sigma>, gold).
     seq (criterion_st self \<sigma> rows gold) (\<lambda>(\<sigma>, label_loss).
     seq (mul_st \<sigma> (interpolation self) label_loss) (\<lambda>(\<sigma>, x).
     seq (mul_st \<sigma> (1 - interpolation self) edge_loss) (\<lambda>(\<sigma>, y).
     seq (add_st \<sigma> x y) (\<lambda>(\<sigma>, total).
     Inr (\<sigma>, total, marginals)))))))))))"


definition returned2 :: "error + store \<times> nat \<times> nat \<Rightarrow> error + tensor \<times> tensor" where
  "returned2 r = (case r of Inl e \<Rightarrow> Inl e | Inr (\<sigma>, a, b) \<Rightarrow> Inr (\<sigma> ! a, \<sigma> ! b))"





section \<open>Shapes and indexing\<close>

lemma shape2_length: "shape2 a b t \<Longrightarrow> length t = a"
  by (simp add: shape2_def)

lemma shape2_row: "shape2 a b t \<Longrightarrow> i < a \<Longrightarrow> length (t ! i) = b"
  by (simp add: shape2_def list_all_length)

lemma shape2_size2: "shape2 a b t \<Longrightarrow> 0 < a \<Longrightarrow> size2 t = b"
  by (cases t) (auto simp: shape2_def size2_def)

lemma shape3_length: "shape3 a b c t \<Longrightarrow> length t = a"
  by (simp add: shape3_def)

lemma shape3_row: "shape3 a b c t \<Longrightarrow> i < a \<Longrightarrow> shape2 b c (t ! i)"
  by (simp add: shape3_def list_all_length)

lemma shape3_size2: "shape3 a b c t \<Longrightarrow> 0 < a \<Longrightarrow> size2 t = b"
  by (cases t) (auto simp: shape3_def shape2_def size2_def)

lemma shape3_size3: "shape3 a b c t \<Longrightarrow> 0 < a \<Longrightarrow> 0 < b \<Longrightarrow> size3 t = c"
  by (cases t) (auto simp: shape3_def size3_def shape2_size2)

lemma triu_nth:
  "i < length M \<Longrightarrow> j < length (M ! i) \<Longrightarrow> triu k M ! i ! j = (if i + k \<le> j then M ! i ! j else 0)"
  by (simp add: triu_def)

lemma shape2_triu: "shape2 a b M \<Longrightarrow> shape2 a b (triu k M)"
  by (simp add: shape2_def triu_def list_all_length)

lemma shape2_transpose: "shape2 a b M \<Longrightarrow> 0 < a \<Longrightarrow> shape2 b a (transpose_last2 M)"
  using shape2_size2[of a b M] by (simp add: shape2_def transpose_last2_def list_all_length)

lemma transpose_nth:
  "shape2 a b M \<Longrightarrow> i < a \<Longrightarrow> j < b \<Longrightarrow> transpose_last2 M ! j ! i = M ! i ! j"
  using shape2_size2[of a b M] by (simp add: transpose_last2_def shape2_def)

lemma add3_nth:
  "shape3 a b c s \<Longrightarrow> shape3 a b c t \<Longrightarrow> i < a \<Longrightarrow> j < b \<Longrightarrow> k < c \<Longrightarrow>
     add3 s t ! i ! j ! k = s ! i ! j ! k + t ! i ! j ! k"
  by (simp add: add3_def shape3_def shape2_def list_all_length)

lemma shape3_add3: "shape3 a b c s \<Longrightarrow> shape3 a b c t \<Longrightarrow> shape3 a b c (add3 s t)"
  by (simp add: add3_def shape3_def shape2_def list_all_length)

lemma permute_0312_nth:
  "shape3 a b c t \<Longrightarrow> p < c \<Longrightarrow> q < a \<Longrightarrow> r < b \<Longrightarrow> permute_0312 t ! p ! q ! r = t ! q ! r ! p"
  using shape3_size2[of a b c t] shape3_size3[of a b c t]
  by (simp add: permute_0312_def shape3_def)

lemma shape3_permute_0312:
  "shape3 a b c t \<Longrightarrow> 0 < a \<Longrightarrow> 0 < b \<Longrightarrow> shape3 c a b (permute_0312 t)"
  using shape3_size2[of a b c t] shape3_size3[of a b c t]
  by (simp add: permute_0312_def shape3_def shape2_def list_all_length)

lemma shape3_map_triu: "shape3 a b c t \<Longrightarrow> shape3 a b c (map (triu k) t)"
  by (simp add: shape3_def list_all_length shape2_triu)

lemma shape3_map_transpose:
  "shape3 a b c t \<Longrightarrow> 0 < b \<Longrightarrow> shape3 a c b (map transpose_last2 t)"
  by (simp add: shape3_def list_all_length shape2_transpose)

lemma symmetrised_nth:
  fixes t :: "'a::{plus,zero} tensor3"
  assumes "shape3 a n n t" "x < a" "c < n" "d < n"
  shows "add3 (map (triu 0) t) (map transpose_last2 (map (triu 1) t)) ! x ! c ! d =
           (if c \<le> d then t ! x ! c ! d else 0) + (if d < c then t ! x ! d ! c else 0)"
proof -
  have n: "0 < n" using assms by simp
  have s1: "shape3 a n n (map (triu 0) t)" using assms(1) by (rule shape3_map_triu)
  have s2: "shape3 a n n (map transpose_last2 (map (triu 1) t))"
    using assms(1) n by (intro shape3_map_transpose shape3_map_triu)
  have r: "shape2 n n (t ! x)" using assms by (simp add: shape3_row)
  have len: "length t = a" using assms by (simp add: shape3_length)
  have l1: "map (triu 0) t ! x ! c ! d = (if c \<le> d then t ! x ! c ! d else 0)"
    using assms len r by (simp add: triu_nth shape2_length shape2_row)
  have "map transpose_last2 (map (triu 1) t) ! x ! c ! d = triu 1 (t ! x) ! d ! c"
    using assms len shape2_triu[OF r, of 1] by (simp add: transpose_nth)
  also have "\<dots> = (if d < c then t ! x ! d ! c else 0)"
    using assms r by (simp add: triu_nth shape2_length shape2_row Suc_le_eq)
  finally show ?thesis using add3_nth[OF s1 s2 assms(2-4)] l1 by simp
qed

lemma sib_element_nth:
  fixes raw :: "'a::{plus,zero} tensor3"
  assumes "shape3 n n n raw" "p < n" "q < n" "r < n"
  shows "sib_element raw ! p ! q ! r =
           (if r \<le> p then raw ! q ! r ! p else 0) + (if p < r then raw ! q ! p ! r else 0)"
proof -
  let ?S = "add3 (map (triu 0) raw) (map transpose_last2 (map (triu 1) raw))"
  have n: "0 < n" using assms by simp
  have "shape3 n n n ?S"
    using assms(1) n by (intro shape3_add3 shape3_map_transpose shape3_map_triu)
  then have "sib_element raw ! p ! q ! r = ?S ! q ! r ! p"
    using assms by (simp add: sib_element_def permute_0312_nth)
  then show ?thesis using symmetrised_nth[OF assms(1,3,4,2)] by simp
qed

lemma cop_element_nth:
  fixes raw :: "'a::{plus,zero} tensor3"
  assumes "shape3 n n n raw" "p < n" "q < n" "r < n"
  shows "cop_element raw ! p ! q ! r =
           (if q \<le> r then raw ! q ! r ! p else 0) + (if r < q then raw ! r ! q ! p else 0)"
proof -
  let ?P = "permute_0312 raw"
  have n: "0 < n" using assms by simp
  have s: "shape3 n n n ?P"
    using assms(1) n by (simp add: shape3_permute_0312)
  have "cop_element raw ! p ! q ! r =
          (if q \<le> r then ?P ! p ! q ! r else 0) + (if r < q then ?P ! p ! r ! q else 0)"
    unfolding cop_element_def Let_def by (rule symmetrised_nth[OF s assms(2-4)])
  moreover have "?P ! p ! q ! r = raw ! q ! r ! p" "?P ! p ! r ! q = raw ! r ! q ! p"
    using assms by (simp_all add: permute_0312_nth)
  ultimately show ?thesis by simp
qed

lemma shape2_eqI:
  assumes "shape2 a b s" "shape2 a b t" "\<And>i j. i < a \<Longrightarrow> j < b \<Longrightarrow> s ! i ! j = t ! i ! j"
  shows "s = t"
proof (rule nth_equalityI)
  show "length s = length t" using assms(1,2) by (simp add: shape2_length)
next
  fix i assume "i < length s"
  then have i: "i < a" using assms(1) by (simp add: shape2_length)
  show "s ! i = t ! i"
    using assms i by (intro nth_equalityI) (simp_all add: shape2_row)
qed

lemma shape3_eqI:
  assumes "shape3 a b c s" "shape3 a b c t"
    "\<And>i j k. i < a \<Longrightarrow> j < b \<Longrightarrow> k < c \<Longrightarrow> s ! i ! j ! k = t ! i ! j ! k"
  shows "s = t"
proof (rule nth_equalityI)
  show "length s = length t" using assms(1,2) by (simp add: shape3_length)
next
  fix i assume "i < length s"
  then have i: "i < a" using assms(1) by (simp add: shape3_length)
  show "s ! i = t ! i"
    using assms i by (intro shape2_eqI[of b c]) (simp_all add: shape3_row)
qed

lemma shape3_sib_element:
  fixes raw :: "'a::{plus,zero} tensor3"
  assumes "shape3 n n n raw"
  shows "shape3 n n n (sib_element raw)"
proof (cases "n = 0")
  case True
  then show ?thesis using assms
    by (simp add: shape3_def sib_element_def permute_0312_def size3_def add3_def)
next
  case False
  then have n: "0 < n" by simp
  have "shape3 n n n (add3 (map (triu 0) raw) (map transpose_last2 (map (triu 1) raw)))"
    using assms n by (intro shape3_add3 shape3_map_transpose shape3_map_triu)
  then show ?thesis
    using n by (simp add: sib_element_def shape3_permute_0312)
qed

lemma shape3_cop_element:
  fixes raw :: "'a::{plus,zero} tensor3"
  assumes "shape3 n n n raw"
  shows "shape3 n n n (cop_element raw)"
proof (cases "n = 0")
  case True
  then show ?thesis using assms
    by (simp add: shape3_def cop_element_def permute_0312_def size3_def add3_def)
next
  case False
  then have n: "0 < n" by simp
  have P: "shape3 n n n (permute_0312 raw)"
    using assms n by (simp add: shape3_permute_0312)
  show ?thesis
    unfolding cop_element_def Let_def
    by (rule shape3_add3[OF shape3_map_triu[OF P] shape3_map_transpose[OF shape3_map_triu[OF P] n]])
qed

lemma sib_element_upper:
  fixes s t :: "'a::{plus,zero} tensor3"
  assumes "shape3 n n n s" "shape3 n n n t" "upper_equal n s t"
  shows "sib_element s = sib_element t"
proof (rule shape3_eqI[of n n n])
  fix p q r assume i: "p < n" "q < n" "r < n"
  have "r \<le> p \<Longrightarrow> s ! q ! r ! p = t ! q ! r ! p" "p < r \<Longrightarrow> s ! q ! p ! r = t ! q ! p ! r"
    using assms(3) i unfolding upper_equal_def by auto
  then show "sib_element s ! p ! q ! r = sib_element t ! p ! q ! r"
    using assms(1,2) i by (simp add: sib_element_nth)
qed (use assms in \<open>simp_all add: shape3_sib_element\<close>)

lemma shape4_row: "shape4 a b c d t \<Longrightarrow> i < a \<Longrightarrow> shape3 b c d (t ! i)"
  by (simp add: shape4_def list_all_length)

lemma shape4_length: "shape4 a b c d t \<Longrightarrow> length t = a"
  by (simp add: shape4_def)

section \<open>Symmetry of the assembled second-order potentials\<close>

text \<open>
  Claim C1. For raw sibling scores of shape \<open>[B, n, n, n]\<close>, the sibling tensor that
  \<open>forward\<close> returns is symmetric under exchange of the two dependents: the potential of
  head \<open>h\<close> with dependents \<open>d\<close>, \<open>d'\<close> equals that with dependents \<open>d'\<close>, \<open>d\<close>, as
  an equality of values and not up to rounding. Both are one and the same raw score, the
  entry of the scorer's output for head \<open>h\<close> whose two dependent indices are in ascending
  order: the half below the diagonal is the transpose of the half on and above it. The
  only property of the scalar addition used is \<open>x + 0 = 0 + x\<close>. The raw entries below
  the diagonal of the two dependent dimensions never reach the result: two raw tensors
  that agree on and above that diagonal give the same assembled tensor.
\<close>

theorem sib_symmetric:
  fixes sib_raw :: "'a::{plus,zero} tensor4"
  assumes comm: "\<And>x::'a. x + 0 = 0 + x"
    and shape: "shape4 B n n n sib_raw"
    and fwd: "forward edge_raw sib_raw cop_raw grd_raw label_raw = (s_egde, s_sib, s_cop, s_grd, s_label)"
  shows "(\<forall>b < B. \<forall>h < n. \<forall>d < n. \<forall>d' < n.
            sib s_sib b h d d' = sib s_sib b h d' d \<and>
            sib s_sib b h d d' = sib_raw ! b ! h ! min d d' ! max d d' + 0) \<and>
         (\<forall>sib_raw' e' c' g' l'.
            shape4 B n n n sib_raw' \<and> (\<forall>b < B. upper_equal n (sib_raw ! b) (sib_raw' ! b)) \<longrightarrow>
            fst (snd (forward e' sib_raw' c' g' l')) = s_sib)"
proof (intro conjI allI impI)
  have S: "s_sib = map sib_element sib_raw"
    using fwd by (simp add: forward_def)
  fix b h d d' assume i: "b < B" "h < n" "d < n" "d' < n"
  have r: "shape3 n n n (sib_raw ! b)" "b < length sib_raw"
    using shape i by (simp_all add: shape4_row shape4_length)
  have v: "sib_element (sib_raw ! b) ! x ! h ! y = sib_raw ! b ! h ! min x y ! max x y + 0"
    if "x < n" "y < n" for x y
  proof (cases "y \<le> x")
    case True
    then show ?thesis using r(1) i that by (simp add: sib_element_nth min_def max_def)
  next
    case False
    then show ?thesis using r(1) i that comm by (simp add: sib_element_nth min_def max_def)
  qed
  have p: "sib s_sib b h d d' = sib_raw ! b ! h ! min d d' ! max d d' + 0"
    using v[of d d'] i r(2) by (simp add: S sib_def)
  have q: "sib s_sib b h d' d = sib_raw ! b ! h ! min d d' ! max d d' + 0"
    using v[of d' d] i r(2) by (simp add: S sib_def min.commute max.commute)
  show "sib s_sib b h d d' = sib s_sib b h d' d" using p q by simp
  show "sib s_sib b h d d' = sib_raw ! b ! h ! min d d' ! max d d' + 0" by (rule p)
next
  have S: "s_sib = map sib_element sib_raw"
    using fwd by (simp add: forward_def)
  fix sib_raw' :: "'a tensor4" and e' c' g' l'
  assume "shape4 B n n n sib_raw' \<and> (\<forall>b < B. upper_equal n (sib_raw ! b) (sib_raw' ! b))"
  then have a: "shape4 B n n n sib_raw'" "\<And>b. b < B \<Longrightarrow> upper_equal n (sib_raw ! b) (sib_raw' ! b)"
    by simp_all
  have "map sib_element sib_raw' = map sib_element sib_raw"
  proof (rule nth_equalityI)
    show "length (map sib_element sib_raw') = length (map sib_element sib_raw)"
      using a shape by (simp add: shape4_length)
  next
    fix b assume "b < length (map sib_element sib_raw')"
    then have b: "b < B" using a by (simp add: shape4_length)
    then have "sib_element (sib_raw ! b) = sib_element (sib_raw' ! b)"
      using a shape by (intro sib_element_upper[of n]) (simp_all add: shape4_row)
    then show "map sib_element sib_raw' ! b = map sib_element sib_raw ! b"
      using a shape b by (simp add: shape4_length)
  qed
  then show "fst (snd (forward e' sib_raw' c' g' l')) = s_sib"
    by (simp add: S forward_def)
qed

theorem sib_symmetric_witness:
  "sib (fst (snd (forward [] [[[[1, 2], [3, 4]], [[5, 6], [7, 8 :: int]]]] [] [] []))) 0 1 0 1 =
     sib (fst (snd (forward [] [[[[1, 2], [3, 4]], [[5, 6], [7, 8 :: int]]]] [] [] []))) 0 1 1 0 \<and>
   sib (fst (snd (forward [] [[[[1, 2], [3, 4]], [[5, 6], [7, 8 :: int]]]] [] [] []))) 0 1 1 0 = 6 \<and>
   fst (snd (forward [] [[[[1, 2], [30, 4]], [[5, 6], [70, 8 :: int]]]] [] [] [])) =
     fst (snd (forward [] [[[[1, 2], [3, 4]], [[5, 6], [7, 8 :: int]]]] [] [] []))"
proof -
  let ?raw = "[[[[1, 2], [3, 4]], [[5, 6], [7, 8 :: int]]]]"
  let ?raw' = "[[[[1, 2], [30, 4]], [[5, 6], [70, 8 :: int]]]]"
  obtain s_egde s_sib s_cop s_grd s_label where
    f: "forward ([] :: int tensor3) ?raw [] [] [] = (s_egde, s_sib, s_cop, s_grd, s_label)"
    by (cases "forward ([] :: int tensor3) ?raw [] [] []") auto
  have sh: "shape4 1 2 2 2 ?raw" "shape4 1 2 2 2 ?raw'"
    by (simp_all add: shape4_def shape3_def shape2_def)
  have up: "\<forall>b < 1. upper_equal 2 (?raw ! b) (?raw' ! b)"
    by (simp add: upper_equal_def less_Suc_eq numeral_2_eq_2)
  have c: "\<And>x::int. x + 0 = 0 + x" by simp
  note t = sib_symmetric[OF c sh(1) f]
  have "sib s_sib 0 1 0 1 = sib s_sib 0 1 1 0" "sib s_sib 0 1 1 0 = 6"
    using t[THEN conjunct1, rule_format, of 0 1 0 1] t[THEN conjunct1, rule_format, of 0 1 1 0]
    by simp_all
  moreover have "fst (snd (forward [] ?raw' [] [] [])) = s_sib"
    using t[THEN conjunct2, rule_format, of ?raw' "[]" "[]" "[]" "[]"] sh(2) up by simp
  ultimately show ?thesis by (simp add: f)
qed

text \<open>
  Claim C2. For raw co-parent scores of shape \<open>[B, n, n, n]\<close>, the co-parent tensor that
  \<open>forward\<close> returns is symmetric under exchange of the two heads: the potential of
  dependent \<open>d\<close> with heads \<open>h\<close>, \<open>h'\<close> equals that with heads \<open>h'\<close>, \<open>h\<close>. Both are
  one and the same raw entry, the one whose two head indices are in ascending order: the
  symmetry holds by construction, from one triangular half and its transpose.
\<close>

theorem cop_symmetric:
  fixes cop_raw :: "'a::{plus,zero} tensor4"
  assumes comm: "\<And>x::'a. x + 0 = 0 + x"
    and shape: "shape4 B n n n cop_raw"
    and fwd: "forward edge_raw sib_raw cop_raw grd_raw label_raw = (s_egde, s_sib, s_cop, s_grd, s_label)"
  shows "\<forall>b < B. \<forall>d < n. \<forall>h < n. \<forall>h' < n.
           cop s_cop b h d h' = cop s_cop b h' d h \<and>
           cop s_cop b h d h' = cop_raw ! b ! min h h' ! max h h' ! d + 0"
proof (intro allI impI)
  have S: "s_cop = map cop_element cop_raw"
    using fwd by (simp add: forward_def)
  fix b d h h' assume i: "b < B" "d < n" "h < n" "h' < n"
  have r: "shape3 n n n (cop_raw ! b)" "b < length cop_raw"
    using shape i by (simp_all add: shape4_row shape4_length)
  have v: "cop_element (cop_raw ! b) ! d ! x ! y = cop_raw ! b ! min x y ! max x y ! d + 0"
    if "x < n" "y < n" for x y
  proof (cases "x \<le> y")
    case True
    then show ?thesis using r(1) i that by (simp add: cop_element_nth min_def max_def)
  next
    case False
    then show ?thesis using r(1) i that comm by (simp add: cop_element_nth min_def max_def)
  qed
  have "cop s_cop b h d h' = cop_raw ! b ! min h h' ! max h h' ! d + 0"
    using v[of h h'] i r(2) by (simp add: S cop_def)
  moreover have "cop s_cop b h' d h = cop_raw ! b ! min h h' ! max h h' ! d + 0"
    using v[of h' h] i r(2) by (simp add: S cop_def min.commute max.commute)
  ultimately show "cop s_cop b h d h' = cop s_cop b h' d h \<and>
           cop s_cop b h d h' = cop_raw ! b ! min h h' ! max h h' ! d + 0"
    by simp
qed

theorem cop_symmetric_witness:
  "cop (fst (snd (snd (forward [] [] [[[[1, 2], [3, 4]], [[5, 6], [7, 8 :: int]]]] [] [])))) 0 0 1 1 =
     cop (fst (snd (snd (forward [] [] [[[[1, 2], [3, 4]], [[5, 6], [7, 8 :: int]]]] [] [])))) 0 1 1 0 \<and>
   cop (fst (snd (snd (forward [] [] [[[[1, 2], [3, 4]], [[5, 6], [7, 8 :: int]]]] [] [])))) 0 1 1 0 = 4"
proof -
  let ?raw = "[[[[1, 2], [3, 4]], [[5, 6], [7, 8 :: int]]]]"
  obtain s_egde s_sib s_cop s_grd s_label where
    f: "forward ([] :: int tensor3) [] ?raw [] [] = (s_egde, s_sib, s_cop, s_grd, s_label)"
    by (cases "forward ([] :: int tensor3) [] ?raw [] []") auto
  have sh: "shape4 1 2 2 2 ?raw"
    by (simp add: shape4_def shape3_def shape2_def)
  have c: "\<And>x::int. x + 0 = 0 + x" by simp
  have "cop s_cop 0 0 1 1 = cop s_cop 0 1 1 0" "cop s_cop 0 1 1 0 = 4"
    using cop_symmetric[OF c sh f, rule_format, of 0 1 0 1]
      cop_symmetric[OF c sh f, rule_format, of 0 1 1 0] by simp_all
  then show ?thesis by (simp add: f)
qed

section \<open>The arc mask\<close>

lemma broadcast_outer_and:
  assumes "i < length m" "j < length m"
  shows "broadcast2 (\<and>) (unsqueeze_1 m) (unsqueeze_2 m) ! i ! j = (m ! j \<and> m ! i)"
proof -
  obtain x xs where m: "m = x # xs" using assms by (cases m) auto
  have s2: "size2 (unsqueeze_2 m) = 1" "size2 (unsqueeze_1 m) = length m"
    by (simp_all add: m size2_def unsqueeze_2_def unsqueeze_1_def)
  have rows: "broadcast_size (length (unsqueeze_1 m)) (length (unsqueeze_2 m)) = length m"
    by (simp add: broadcast_size_def unsqueeze_1_def unsqueeze_2_def)
  have cols: "broadcast_size (size2 (unsqueeze_1 m)) (size2 (unsqueeze_2 m)) = length m"
    by (simp add: broadcast_size_def s2)
  have a: "broadcast_nth (broadcast_nth (unsqueeze_1 m) i) j = m ! j"
    using assms by (auto simp: broadcast_nth_def unsqueeze_1_def)
  have b: "broadcast_nth (broadcast_nth (unsqueeze_2 m) i) j = m ! i"
    using assms by (auto simp: broadcast_nth_def unsqueeze_2_def)
  show ?thesis
    using assms by (simp add: broadcast2_def rows cols a b)
qed

lemma broadcast_outer_shape:
  "shape2 (length m) (length m) (broadcast2 (\<and>) (unsqueeze_1 m) (unsqueeze_2 m))"
proof -
  have s2: "size2 (unsqueeze_2 m) = (if m = [] then 0 else 1)" "size2 (unsqueeze_1 m) = length m"
    by (cases m; simp add: size2_def unsqueeze_2_def unsqueeze_1_def)+
  have rows: "broadcast_size (length (unsqueeze_1 m)) (length (unsqueeze_2 m)) = length m"
    by (simp add: broadcast_size_def unsqueeze_1_def unsqueeze_2_def)
  have cols: "m \<noteq> [] \<Longrightarrow> broadcast_size (size2 (unsqueeze_1 m)) (size2 (unsqueeze_2 m)) = length m"
    by (simp add: broadcast_size_def s2)
  show ?thesis
  proof (cases "m = []")
    case True
    then show ?thesis
      by (simp add: shape2_def broadcast2_def broadcast_size_def unsqueeze_1_def unsqueeze_2_def)
  next
    case False
    then show ?thesis by (simp add: shape2_def broadcast2_def rows cols list_all_length)
  qed
qed

lemma arc_mask_empty:
  assumes "shape2 B 0 batch_mask" "0 < B"
  shows "arc_mask batch_mask = Inl IndexError"
proof -
  obtain m ms where bm: "batch_mask = m # ms" using assms by (cases batch_mask) (auto simp: shape2_def)
  then have "m = []" using assms by (simp add: shape2_def)
  then show ?thesis
    by (simp add: arc_mask_def bm broadcast2_def broadcast_size_def unsqueeze_1_def unsqueeze_2_def)
qed

lemma shape2_row_update:
  "shape2 a b M \<Longrightarrow> shape2 a b (M[0 := map f (M ! 0)])"
  by (cases M) (auto simp: shape2_def)

lemma arc_mask_value:
  assumes sh: "shape2 B n batch_mask" and n: "0 < n"
  shows "\<exists>M. arc_mask batch_mask = Inr M \<and> shape3 B n n M \<and>
           (\<forall>b < B. \<forall>i < n. \<forall>j < n.
              M ! b ! i ! j = (i \<noteq> 0 \<and> batch_mask ! b ! i \<and> batch_mask ! b ! j))"
proof -
  let ?outer = "\<lambda>m. broadcast2 (\<and>) (unsqueeze_1 m) (unsqueeze_2 m)"
  let ?M = "map (\<lambda>M. M[0 := map (\<lambda>_. False) (M ! 0)]) (map ?outer batch_mask)"
  have len: "length batch_mask = B" and row: "\<And>b. b < B \<Longrightarrow> length (batch_mask ! b) = n"
    using sh by (simp_all add: shape2_length shape2_row)
  have rows: "\<And>m. m \<in> set batch_mask \<Longrightarrow> length m = n"
    using sh by (simp add: shape2_def list_all_iff)
  have osh: "\<And>m. m \<in> set batch_mask \<Longrightarrow> shape2 n n (?outer m)"
    using broadcast_outer_shape rows by metis
  have "[] \<noteq> ?outer m" if "m \<in> set batch_mask" for m
    using osh[OF that] n by (auto simp: shape2_def)
  then have "\<not> list_ex (\<lambda>M. length M = 0) (map ?outer batch_mask)"
    by (auto simp: list_ex_iff)
  then have r: "arc_mask batch_mask = Inr ?M"
    by (simp add: arc_mask_def Let_def)
  have s: "shape3 B n n ?M"
    using osh len by (simp add: shape3_def list_all_iff shape2_row_update)
  have v: "?M ! b ! i ! j = (i \<noteq> 0 \<and> batch_mask ! b ! i \<and> batch_mask ! b ! j)"
    if "b < B" "i < n" "j < n" for b i j
  proof -
    have o: "shape2 n n (?outer (batch_mask ! b))" using osh that len by simp
    have "?M ! b ! i ! j = (?outer (batch_mask ! b))[0 := map (\<lambda>_. False) (?outer (batch_mask ! b) ! 0)] ! i ! j"
      using that len by simp
    also have "\<dots> = (if i = 0 then False else ?outer (batch_mask ! b) ! i ! j)"
      using that o n by (simp add: nth_list_update shape2_length shape2_row)
    also have "\<dots> = (i \<noteq> 0 \<and> batch_mask ! b ! i \<and> batch_mask ! b ! j)"
      using that row broadcast_outer_and[of i "batch_mask ! b" j] by auto
    finally show ?thesis .
  qed
  show ?thesis using r s v by blast
qed

text \<open>
  Claim C3, as the code has it. For a token mask of shape \<open>[B, n]\<close> with \<open>n \<ge> 1\<close> the arc
  mask exists and is true exactly at the positions \<open>(i, j)\<close> whose first index is not the
  root and whose two tokens both lie inside the sentence. So it is false wherever the first
  index (the dependent, in the documented layout) is the root and wherever a token is
  padding; a self-loop position \<open>(i, i)\<close> of a real token \<open>i \<ge> 1\<close> is true, not false.
  \<open>predict_batch\<close> calls the inference engine, and \<open>train_batch\<close> the loss, with this
  finished mask and with no other.
\<close>

theorem arc_mask_positions:
  assumes sh: "shape2 B n batch_mask" and n: "0 < n"
  shows "\<exists>M. arc_mask batch_mask = Inr M \<and>
           (\<forall>b < B. \<forall>i < n. \<forall>j < n.
              M ! b ! i ! j = (i \<noteq> 0 \<and> batch_mask ! b ! i \<and> batch_mask ! b ! j)) \<and>
           predict_batch self batch_mask sc s_label =
             seq (without_target (inference self) sc M) (\<lambda>s_edge.
             seq (decode s_edge s_label) (\<lambda>label_preds.
             Inr (masked_fill label_preds (logical_not M) (- 1)))) \<and>
           train_batch self batch_mask (s_edge, s_sib, s_cop, s_grd) s_label labels =
             seq (loss self s_edge s_sib s_cop s_grd s_label labels M) (\<lambda>(l, s_edge).
             seq (decode s_edge s_label) (\<lambda>label_preds.
             Inr (l, masked_fill label_preds (logical_not M) (- 1))))"
proof -
  obtain M where M: "arc_mask batch_mask = Inr M"
    and v: "\<forall>b < B. \<forall>i < n. \<forall>j < n.
              M ! b ! i ! j = (i \<noteq> 0 \<and> batch_mask ! b ! i \<and> batch_mask ! b ! j)"
    using arc_mask_value[OF sh n] by blast
  have "predict_batch self batch_mask sc s_label =
          seq (without_target (inference self) sc M) (\<lambda>s_edge.
          seq (decode s_edge s_label) (\<lambda>label_preds.
          Inr (masked_fill label_preds (logical_not M) (- 1))))"
    by (simp add: predict_batch_def M seq_def)
  moreover have "train_batch self batch_mask (s_edge, s_sib, s_cop, s_grd) s_label labels =
             seq (loss self s_edge s_sib s_cop s_grd s_label labels M) (\<lambda>(l, s_edge).
             seq (decode s_edge s_label) (\<lambda>label_preds.
             Inr (l, masked_fill label_preds (logical_not M) (- 1))))"
    by (simp add: train_batch_def M seq_def)
  ultimately show ?thesis using M v by blast
qed

theorem arc_mask_positions_witness:
  "\<exists>M. arc_mask [[True, True, False]] = Inr M \<and>
       M ! 0 ! 0 ! 1 = False \<and> M ! 0 ! 1 ! 1 = True \<and> M ! 0 ! 1 ! 2 = False \<and>
       M ! 0 ! 2 ! 1 = False"
proof -
  have sh: "shape2 1 3 [[True, True, False]]" by (simp add: shape2_def)
  have n: "0 < (3 :: nat)" by simp
  obtain M where M: "arc_mask [[True, True, False]] = Inr M"
    and v: "\<forall>b < 1. \<forall>i < 3. \<forall>j < 3.
              M ! b ! i ! j = (i \<noteq> 0 \<and> [[True, True, False]] ! b ! i \<and> [[True, True, False]] ! b ! j)"
    using arc_mask_positions[OF sh n, where self = "\<lparr>interpolation = 0,
        inference = \<lparr>with_target = (\<lambda>sc k t. Inl IndexError), without_target = (\<lambda>sc k. Inl IndexError)\<rparr>,
        criterion = (\<lambda>rows gold. Inl IndexError)\<rparr>" and sc = "([], [], [], [])" and s_label = "[]"
        and s_edge = "[]" and s_sib = "[]" and s_cop = "[]" and s_grd = "[]" and labels = "[]"]
    by blast
  have "M ! 0 ! 0 ! 1 = False" "M ! 0 ! 1 ! 1 = True" "M ! 0 ! 1 ! 2 = False" "M ! 0 ! 2 ! 1 = False"
    using v by simp_all
  then show ?thesis using M by blast
qed

text \<open>
  The claim as stated fails at a self-loop: for one sentence of the root and one token the
  arc mask is true at position \<open>(1, 1)\<close>.
\<close>

theorem arc_mask_self_loop_counterexample:
  "arc_mask [[True, True]] = Inr [[[False, False], [True, True]]] \<and>
   [[[False, False], [True, True]]] ! 0 ! 1 ! 1 = True"
  by (simp add: arc_mask_def broadcast2_def broadcast_size_def broadcast_nth_def unsqueeze_1_def
      unsqueeze_2_def size2_def)

section \<open>Traversals and the arg-max\<close>

lemma traverse_Inr:
  "traverse f xs = Inr ys \<Longrightarrow>
     length ys = length xs \<and> (\<forall>i < length xs. f (xs ! i) = Inr (ys ! i))"
proof (induction xs arbitrary: ys)
  case Nil
  then show ?case by simp
next
  case (Cons x xs)
  then obtain y ys' where y: "f x = Inr y" and t: "traverse f xs = Inr ys'" and ys: "ys = y # ys'"
    by (auto split: sum.splits)
  show ?case using Cons.IH[OF t] y ys by (auto simp: nth_Cons split: nat.splits)
qed

lemma traverse_total:
  "(\<And>x. x \<in> set xs \<Longrightarrow> \<exists>y. f x = Inr y) \<Longrightarrow> \<exists>ys. traverse f xs = Inr ys"
proof (induction xs)
  case Nil
  then show ?case by simp
next
  case (Cons x xs)
  then obtain y ys where "f x = Inr y" "traverse f xs = Inr ys" by (metis list.set_intros)
  then show ?case by simp
qed

lemma argmax_from_first_max:
  assumes "best < length pre" "pre ! best = v" "\<forall>k < length pre. pre ! k \<le> v"
    "\<forall>k < best. pre ! k < v"
  shows "argmax_from best v (length pre) xs < length (pre @ xs) \<and>
         (\<forall>k < length (pre @ xs). (pre @ xs) ! k \<le> (pre @ xs) ! argmax_from best v (length pre) xs) \<and>
         (\<forall>k < argmax_from best v (length pre) xs.
            (pre @ xs) ! k < (pre @ xs) ! argmax_from best v (length pre) xs)"
  using assms
proof (induction xs arbitrary: best v pre)
  case Nil
  then show ?case by simp
next
  case (Cons x xs)
  show ?case
  proof (cases "v < x")
    case True
    have "argmax_from (length pre) x (length (pre @ [x])) xs < length ((pre @ [x]) @ xs) \<and>
         (\<forall>k < length ((pre @ [x]) @ xs).
            ((pre @ [x]) @ xs) ! k \<le> ((pre @ [x]) @ xs) ! argmax_from (length pre) x (length (pre @ [x])) xs) \<and>
         (\<forall>k < argmax_from (length pre) x (length (pre @ [x])) xs.
            ((pre @ [x]) @ xs) ! k < ((pre @ [x]) @ xs) ! argmax_from (length pre) x (length (pre @ [x])) xs)"
    proof (rule Cons.IH)
      show "\<forall>k < length (pre @ [x]). (pre @ [x]) ! k \<le> x"
        using Cons.prems(3) True by (auto simp: nth_append less_Suc_eq intro: order_trans less_imp_le)
      show "\<forall>k < length pre. (pre @ [x]) ! k < x"
        using Cons.prems(3) True by (auto simp: nth_append intro: le_less_trans)
    qed simp_all
    then show ?thesis using True by simp
  next
    case False
    have "argmax_from best v (length (pre @ [x])) xs < length ((pre @ [x]) @ xs) \<and>
         (\<forall>k < length ((pre @ [x]) @ xs).
            ((pre @ [x]) @ xs) ! k \<le> ((pre @ [x]) @ xs) ! argmax_from best v (length (pre @ [x])) xs) \<and>
         (\<forall>k < argmax_from best v (length (pre @ [x])) xs.
            ((pre @ [x]) @ xs) ! k < ((pre @ [x]) @ xs) ! argmax_from best v (length (pre @ [x])) xs)"
    proof (rule Cons.IH)
      show "best < length (pre @ [x])" using Cons.prems(1) by simp
      show "(pre @ [x]) ! best = v" using Cons.prems(1,2) by (simp add: nth_append)
      show "\<forall>k < length (pre @ [x]). (pre @ [x]) ! k \<le> v"
        using Cons.prems(3) False by (auto simp: nth_append less_Suc_eq)
      show "\<forall>k < best. (pre @ [x]) ! k < v"
        using Cons.prems(1,4) by (auto simp: nth_append)
    qed
    then show ?thesis using False by simp
  qed
qed

lemma argmax_is_argmax: "argmax v = Inr k \<Longrightarrow> is_argmax v k"
proof -
  assume a: "argmax v = Inr k"
  then obtain x xs where v: "v = x # xs" and k: "k = int (argmax_from 0 x 1 xs)"
    by (auto simp: argmax_def split: list.splits)
  have "argmax_from 0 x (length [x]) xs < length ([x] @ xs) \<and>
         (\<forall>k < length ([x] @ xs). ([x] @ xs) ! k \<le> ([x] @ xs) ! argmax_from 0 x (length [x]) xs) \<and>
         (\<forall>k < argmax_from 0 x (length [x]) xs.
            ([x] @ xs) ! k < ([x] @ xs) ! argmax_from 0 x (length [x]) xs)"
    by (rule argmax_from_first_max) simp_all
  then show ?thesis by (simp add: is_argmax_def v k)
qed

lemma argmax_total: "v \<noteq> [] \<Longrightarrow> \<exists>k. argmax v = Inr k"
  by (cases v) (simp_all add: argmax_def)

lemma argmax_empty: "argmax [] = Inl IndexError"
  by (simp add: argmax_def)

lemma masked_fill_nth:
  assumes "b < length (masked_fill t c v)" "i < length (masked_fill t c v ! b)"
    "j < length (masked_fill t c v ! b ! i)"
  shows "masked_fill t c v ! b ! i ! j = (if c ! b ! i ! j then v else t ! b ! i ! j) \<and>
         b < length t \<and> i < length (t ! b) \<and> j < length (t ! b ! i)"
proof -
  have b: "b < length t" "b < length c" using assms(1) by (simp_all add: masked_fill_def)
  then have rb: "masked_fill t c v ! b = map2 (map2 (\<lambda>x c. if c then v else x)) (t ! b) (c ! b)"
    by (simp add: masked_fill_def)
  have i: "i < length (t ! b)" "i < length (c ! b)" using assms(2) by (simp_all add: rb)
  then have ri: "masked_fill t c v ! b ! i = map2 (\<lambda>x c. if c then v else x) (t ! b ! i) (c ! b ! i)"
    by (simp add: rb)
  have j: "j < length (t ! b ! i)" "j < length (c ! b ! i)" using assms(3) by (simp_all add: ri)
  show ?thesis using b i j by (simp add: ri)
qed

lemma masked_fill_shape:
  assumes "shape3 B n m t" "shape3 B n m c"
  shows "shape3 B n m (masked_fill t c v)"
  using assms by (simp add: masked_fill_def shape3_def shape2_def list_all_length)

lemma argmax_last_Inr:
  assumes "argmax_last t = Inr a"
  shows "length a = length t" 
    and "b < length t \<Longrightarrow> length (a ! b) = length (t ! b)"
    and "b < length t \<Longrightarrow> i < length (t ! b) \<Longrightarrow> length (a ! b ! i) = length (t ! b ! i)"
    and "b < length t \<Longrightarrow> i < length (t ! b) \<Longrightarrow> j < length (t ! b ! i) \<Longrightarrow>
           argmax (t ! b ! i ! j) = Inr (a ! b ! i ! j)"
proof -
  have 1: "length a = length t \<and>
           (\<forall>b < length t. traverse (traverse argmax) (t ! b) = Inr (a ! b))"
    using assms unfolding argmax_last_def by (rule traverse_Inr)
  then show "length a = length t" by simp
  have 2: "length (a ! b) = length (t ! b) \<and>
           (\<forall>i < length (t ! b). traverse argmax (t ! b ! i) = Inr (a ! b ! i))" if "b < length t" for b
    using 1 that traverse_Inr[of "traverse argmax" "t ! b" "a ! b"] by simp
  then show "b < length t \<Longrightarrow> length (a ! b) = length (t ! b)" by simp
  have 3: "length (a ! b ! i) = length (t ! b ! i) \<and>
           (\<forall>j < length (t ! b ! i). argmax (t ! b ! i ! j) = Inr (a ! b ! i ! j))"
    if "b < length t" "i < length (t ! b)" for b i
    using 2 that traverse_Inr[of argmax "t ! b ! i" "a ! b ! i"] by simp
  then show "b < length t \<Longrightarrow> i < length (t ! b) \<Longrightarrow> length (a ! b ! i) = length (t ! b ! i)"
    by simp
  show "b < length t \<Longrightarrow> i < length (t ! b) \<Longrightarrow> j < length (t ! b ! i) \<Longrightarrow>
           argmax (t ! b ! i ! j) = Inr (a ! b ! i ! j)"
    using 3 by simp
qed

lemma argmax_last_total:
  assumes "shape4 B n m L t" "0 < L"
  shows "\<exists>a. argmax_last t = Inr a"
  unfolding argmax_last_def
proof (rule traverse_total)
  fix x assume x: "x \<in> set t"
  show "\<exists>y. traverse (traverse argmax) x = Inr y"
  proof (rule traverse_total)
    fix y assume y: "y \<in> set x"
    show "\<exists>z. traverse argmax y = Inr z"
    proof (rule traverse_total)
      fix v assume "v \<in> set y"
      then have "length v = L"
        using assms(1) x y by (auto simp: shape4_def shape3_def shape2_def list_all_iff)
      then show "\<exists>k. argmax v = Inr k" using assms(2) by (intro argmax_total) auto
    qed
  qed
qed

lemma argmax_last_shape:
  assumes "argmax_last t = Inr a" "shape4 B n m L t"
  shows "shape3 B n m a"
proof -
  have len: "length t = B" and r: "\<And>b. b < B \<Longrightarrow> shape3 n m L (t ! b)"
    using assms(2) by (simp_all add: shape4_length shape4_row)
  have "length (a ! b) = n \<and> (\<forall>i < n. length (a ! b ! i) = m)" if "b < B" for b
  proof -
    have s1: "length (t ! b) = n"
      using r[OF that] by (simp add: shape3_length)
    have s2: "length (t ! b ! i) = m" if "i < n" for i
      using shape3_row[OF r[OF \<open>b < B\<close>] that] by (simp add: shape2_length)
    note s = s1 s2
    show ?thesis using argmax_last_Inr(2,3)[OF assms(1)] that len s by simp
  qed
  then show ?thesis
    using argmax_last_Inr(1)[OF assms(1)] len by (simp add: shape3_def shape2_def list_all_length)
qed

lemma lt_nth:
  "shape3 B n m t \<Longrightarrow> b < B \<Longrightarrow> i < n \<Longrightarrow> j < m \<Longrightarrow> lt t c ! b ! i ! j = (t ! b ! i ! j < c)"
  by (simp add: lt_def shape3_def shape2_def list_all_length)

lemma lt_shape: "shape3 B n m t \<Longrightarrow> shape3 B n m (lt t c)"
  by (simp add: lt_def shape3_def shape2_def list_all_length)

section \<open>What \<open>decode\<close> returns\<close>

text \<open>
  Claim C5. For marginals of shape \<open>[B, n, m]\<close> and label scores of shape \<open>[B, n, m, L]\<close>
  with at least one label, \<open>decode\<close> returns a tensor of shape \<open>[B, n, m]\<close> whose entry at
  \<open>(b, i, j)\<close> is the arg-max over the label dimension (the first index of a maximal
  score) when the marginal there is at least \<open>0.5\<close>, and \<open>-1\<close> when it is below \<open>0.5\<close>.
  The threshold is the constant of the definition; \<open>decode\<close> has no argument for it.
\<close>

theorem decode_threshold:
  assumes e: "shape3 B n m s_egde" and l: "shape4 B n m L s_label" and L: "0 < L"
  shows "\<exists>out. decode s_egde s_label = Inr out \<and> shape3 B n m out \<and>
           (\<forall>b < B. \<forall>i < n. \<forall>j < m.
              (1 / 2 \<le> s_egde ! b ! i ! j \<longrightarrow> is_argmax (s_label ! b ! i ! j) (out ! b ! i ! j)) \<and>
              (s_egde ! b ! i ! j < 1 / 2 \<longrightarrow> out ! b ! i ! j = - 1))"
proof -
  obtain a where a: "argmax_last s_label = Inr a"
    using argmax_last_total[OF l L] by blast
  let ?out = "masked_fill a (lt s_egde (1 / 2)) (- 1)"
  have d: "decode s_egde s_label = Inr ?out"
    by (simp add: decode_def a seq_def)
  have sa: "shape3 B n m a" using a l by (rule argmax_last_shape)
  have so: "shape3 B n m ?out" using sa lt_shape[OF e] by (rule masked_fill_shape)
  have v: "(1 / 2 \<le> s_egde ! b ! i ! j \<longrightarrow> is_argmax (s_label ! b ! i ! j) (?out ! b ! i ! j)) \<and>
           (s_egde ! b ! i ! j < 1 / 2 \<longrightarrow> ?out ! b ! i ! j = - 1)"
    if "b < B" "i < n" "j < m" for b i j
  proof -
    have len: "b < length ?out" "i < length (?out ! b)" "j < length (?out ! b ! i)"
      using so that shape3_row[OF so that(1)] 
      by (simp_all add: shape3_length shape2_length shape2_row)
    have lab: "b < length s_label" "i < length (s_label ! b)" "j < length (s_label ! b ! i)"
      using l that shape4_row[OF l that(1)] shape3_row[OF shape4_row[OF l that(1)] that(2)]
      by (simp_all add: shape4_length shape3_length shape2_length)
    have "?out ! b ! i ! j = (if s_egde ! b ! i ! j < 1 / 2 then - 1 else a ! b ! i ! j)"
      using masked_fill_nth[OF len] lt_nth[OF e that] by simp
    moreover have "is_argmax (s_label ! b ! i ! j) (a ! b ! i ! j)"
      using argmax_last_Inr(4)[OF a lab] by (rule argmax_is_argmax)
    ultimately show ?thesis by simp
  qed
  show ?thesis using d so v by blast
qed

theorem decode_threshold_witness:
  "\<exists>out. decode [[[7 / 10, 3 / 10], [1 / 2, 0]]]
            [[[[1, 5, 2], [4, 4, 1]], [[0, 0, 9], [3, 2, 1]]]] = Inr out \<and>
         out = [[[1, - 1], [2, - 1]]] \<and>
         is_argmax [1, 5, 2] (out ! 0 ! 0 ! 0) \<and> out ! 0 ! 0 ! 1 = - 1"
proof -
  let ?e = "[[[7 / 10, 3 / 10], [1 / 2, 0 :: real]]]"
  let ?l = "[[[[1, 5, 2], [4, 4, 1]], [[0, 0, 9], [3, 2, 1 :: real]]]]"
  have e: "shape3 1 2 2 ?e" by (simp add: shape3_def shape2_def)
  have l: "shape4 1 2 2 3 ?l" by (simp add: shape4_def shape3_def shape2_def)
  obtain out where o: "decode ?e ?l = Inr out"
    and v: "\<forall>b < 1. \<forall>i < 2. \<forall>j < 2.
              (1 / 2 \<le> ?e ! b ! i ! j \<longrightarrow> is_argmax (?l ! b ! i ! j) (out ! b ! i ! j)) \<and>
              (?e ! b ! i ! j < 1 / 2 \<longrightarrow> out ! b ! i ! j = - 1)"
    using decode_threshold[OF e l] by auto
  have "is_argmax [1, 5, 2] (out ! 0 ! 0 ! 0)" "out ! 0 ! 0 ! 1 = - 1"
    using v[rule_format, of 0 0 0] v[rule_format, of 0 0 1] by simp_all
  moreover have "decode ?e ?l = Inr [[[1, - 1], [2, - 1]]]"
    by (simp add: decode_def argmax_last_def argmax_def seq_def masked_fill_def lt_def)
  ultimately show ?thesis using o by simp
qed

text \<open>
  Claim C10. Whenever \<open>decode\<close> returns a tensor for label scores whose label dimension
  has size \<open>L\<close>, every entry of that tensor is \<open>-1\<close> or a label index in \<open>0, ..., L - 1\<close>.
\<close>

theorem decode_range:
  assumes l: "shape4 B n m L s_label" and d: "decode s_egde s_label = Inr out"
  shows "\<forall>b < length out. \<forall>i < length (out ! b). \<forall>j < length (out ! b ! i).
           out ! b ! i ! j = - 1 \<or> (0 \<le> out ! b ! i ! j \<and> out ! b ! i ! j < int L)"
proof (intro allI impI)
  fix b i j assume len: "b < length out" "i < length (out ! b)" "j < length (out ! b ! i)"
  obtain a where a: "argmax_last s_label = Inr a"
    and out: "out = masked_fill a (lt s_egde (1 / 2)) (- 1)"
    using d by (auto simp: decode_def seq_def split: sum.splits)
  have m: "out ! b ! i ! j = (if lt s_egde (1 / 2) ! b ! i ! j then - 1 else a ! b ! i ! j)"
    "b < length a" "i < length (a ! b)" "j < length (a ! b ! i)"
    using masked_fill_nth[of b a "lt s_egde (1 / 2)" "- 1" i j] len by (simp_all add: out)
  have sa: "shape3 B n m a" using a l by (rule argmax_last_shape)
  have b: "b < B" using m(2) sa by (simp add: shape3_length)
  have sb: "shape2 n m (a ! b)" using sa b by (rule shape3_row)
  have i: "i < n" using m(3) sb by (simp add: shape2_length)
  have j: "j < m" using m(4) shape2_row[OF sb i] by simp
  note bi = b i j
  have lab: "b < length s_label" "i < length (s_label ! b)" "j < length (s_label ! b ! i)"
    using l bi shape4_row[OF l bi(1)] shape3_row[OF shape4_row[OF l bi(1)] bi(2)]
    by (simp_all add: shape4_length shape3_length shape2_length)
  have "length (s_label ! b ! i ! j) = L"
    using shape3_row[OF shape4_row[OF l bi(1)] bi(2)] bi(3) by (simp add: shape2_row)
  moreover have "is_argmax (s_label ! b ! i ! j) (a ! b ! i ! j)"
    using argmax_last_Inr(4)[OF a lab] by (rule argmax_is_argmax)
  ultimately have "0 \<le> a ! b ! i ! j \<and> a ! b ! i ! j < int L"
    by (auto simp: is_argmax_def)
  then show "out ! b ! i ! j = - 1 \<or> (0 \<le> out ! b ! i ! j \<and> out ! b ! i ! j < int L)"
    using m(1) by simp
qed

theorem decode_range_witness:
  "\<exists>out. decode [[[7 / 10, 3 / 10], [1 / 2, 0]]]
            [[[[1, 5, 2], [4, 4, 1]], [[0, 0, 9], [3, 2, 1]]]] = Inr out \<and>
         (out ! 0 ! 1 ! 0 = - 1 \<or> (0 \<le> out ! 0 ! 1 ! 0 \<and> out ! 0 ! 1 ! 0 < int 3)) \<and>
         (out ! 0 ! 1 ! 1 = - 1 \<or> (0 \<le> out ! 0 ! 1 ! 1 \<and> out ! 0 ! 1 ! 1 < int 3))"
proof -
  let ?e = "[[[7 / 10, 3 / 10], [1 / 2, 0 :: real]]]"
  let ?l = "[[[[1, 5, 2], [4, 4, 1]], [[0, 0, 9], [3, 2, 1 :: real]]]]"
  let ?out = "[[[1, - 1], [2, - 1 :: int]]]"
  have l: "shape4 1 2 2 3 ?l" by (simp add: shape4_def shape3_def shape2_def)
  have d: "decode ?e ?l = Inr ?out"
    by (simp add: decode_def argmax_last_def argmax_def seq_def masked_fill_def lt_def)
  have "?out ! 0 ! 1 ! 0 = - 1 \<or> (0 \<le> ?out ! 0 ! 1 ! 0 \<and> ?out ! 0 ! 1 ! 0 < int 3)"
    using decode_range[OF l d, rule_format, of 0 1 0] by simp
  moreover have "?out ! 0 ! 1 ! 1 = - 1 \<or> (0 \<le> ?out ! 0 ! 1 ! 1 \<and> ?out ! 0 ! 1 ! 1 < int 3)"
    using decode_range[OF l d, rule_format, of 0 1 1] by simp
  ultimately show ?thesis using d by blast
qed

section \<open>What \<open>loss\<close> computes\<close>

lemma map2_nth:
  "length xs = k \<Longrightarrow> length ys = k \<Longrightarrow> map2 f xs ys = map (\<lambda>i. f (xs ! i) (ys ! i)) [0..<k]"
  by (rule nth_equalityI) simp_all

lemma select_row:
  assumes "length tr = m" "length mr = m"
  shows "map fst (filter snd (zip tr mr)) = map ((!) tr) (filter ((!) mr) [0..<m])"
proof -
  have "zip tr mr = map (\<lambda>j. (tr ! j, mr ! j)) [0..<m]"
    using assms by (intro nth_equalityI) simp_all
  then show ?thesis by (simp add: filter_map comp_def)
qed

lemma index_mask_positions:
  assumes t: "shape3 B n m t" and e: "shape3 B n m em"
  shows "index_mask t em =
           map (\<lambda>(b, i, j). t ! b ! i ! j) (filter (\<lambda>(b, i, j). em ! b ! i ! j) (positions B n m))"
proof -
  have lt: "length t = B" "length em = B" using t e by (simp_all add: shape3_length)
  have row: "length (t ! b) = n" "length (em ! b) = n" if "b < B" for b
    using shape3_row[OF t that] shape3_row[OF e that] by (simp_all add: shape2_length)
  have cell: "length (t ! b ! i) = m" "length (em ! b ! i) = m" if "b < B" "i < n" for b i
    using shape3_row[OF t that(1)] shape3_row[OF e that(1)] that(2) by (simp_all add: shape2_row)
  have "index_mask t em =
          concat (map (\<lambda>b. concat (map2 (\<lambda>tr mr. map fst (filter snd (zip tr mr))) (t ! b) (em ! b)))
            [0..<B])"
    unfolding index_mask_def by (rule arg_cong[where f = concat], rule map2_nth[OF lt])
  also have "\<dots> = concat (map (\<lambda>b. concat (map (\<lambda>i. map fst (filter snd (zip (t ! b ! i) (em ! b ! i))))
                         [0..<n])) [0..<B])"
    using row by (intro arg_cong[where f = concat] map_cong refl) (simp add: map2_nth)
  also have "\<dots> = concat (map (\<lambda>b. concat (map (\<lambda>i. map ((!) (t ! b ! i))
                         (filter ((!) (em ! b ! i)) [0..<m])) [0..<n])) [0..<B])"
    using cell by (intro arg_cong[where f = concat] map_cong refl) (simp add: select_row)
  also have "\<dots> = map (\<lambda>(b, i, j). t ! b ! i ! j)
                    (filter (\<lambda>(b, i, j). em ! b ! i ! j) (positions B n m))"
    by (simp add: positions_def map_concat filter_concat filter_map comp_def)
  finally show ?thesis .
qed

lemma ge_nth:
  "shape3 B n m t \<Longrightarrow> b < B \<Longrightarrow> i < n \<Longrightarrow> j < m \<Longrightarrow> ge t c ! b ! i ! j = (c \<le> t ! b ! i ! j)"
  by (simp add: ge_def shape3_def shape2_def list_all_length)

lemma ge_shape: "shape3 B n m t \<Longrightarrow> shape3 B n m (ge t c)"
  by (simp add: ge_def shape3_def shape2_def list_all_length)

lemma logical_and_nth:
  "shape3 B n m s \<Longrightarrow> shape3 B n m t \<Longrightarrow> b < B \<Longrightarrow> i < n \<Longrightarrow> j < m \<Longrightarrow>
     logical_and s t ! b ! i ! j = (s ! b ! i ! j \<and> t ! b ! i ! j)"
  by (simp add: logical_and_def shape3_def shape2_def list_all_length)

lemma logical_and_shape:
  "shape3 B n m s \<Longrightarrow> shape3 B n m t \<Longrightarrow> shape3 B n m (logical_and s t)"
  by (simp add: logical_and_def shape3_def shape2_def list_all_length)

lemma shape4_shape3: "shape4 B n m L t \<Longrightarrow> shape3 B n m t"
  by (simp add: shape4_def shape3_def shape2_def list_all_length)

lemma edge_mask_shape:
  assumes "shape3 B n m labels" "shape3 B n m msk"
  shows "shape3 B n m (edge_mask labels msk)"
  using assms by (simp add: edge_mask_def logical_and_shape ge_shape)

lemma edge_mask_nth:
  assumes "shape3 B n m labels" "shape3 B n m msk" "b < B" "i < n" "j < m"
  shows "edge_mask labels msk ! b ! i ! j = (0 \<le> labels ! b ! i ! j \<and> msk ! b ! i ! j)"
  using assms logical_and_nth[OF ge_shape[OF assms(1), of 0] assms(2), of b i j]
  by (simp add: edge_mask_def ge_nth)

text \<open>
  Claim C6. The arc-existence mask \<open>labels.ge(0) & mask\<close> of \<open>loss\<close> has the shape of its
  two arguments and is true at a position exactly when the gold label there is known (not
  negative) and the structural mask is true there.
\<close>

theorem edge_mask_exact:
  assumes "shape3 B n m labels" "shape3 B n m msk"
  shows "shape3 B n m (edge_mask labels msk) \<and>
         (\<forall>b < B. \<forall>i < n. \<forall>j < m.
            edge_mask labels msk ! b ! i ! j = (0 \<le> labels ! b ! i ! j \<and> msk ! b ! i ! j))"
  using assms by (simp add: edge_mask_shape edge_mask_nth)

theorem edge_mask_exact_witness:
  "shape3 1 2 2 (edge_mask [[[- 1, 0], [3, 2]]] [[[False, False], [True, False]]]) \<and>
   edge_mask [[[- 1, 0], [3, 2]]] [[[False, False], [True, False]]] ! 0 ! 1 ! 0 = True \<and>
   edge_mask [[[- 1, 0], [3, 2]]] [[[False, False], [True, False]]] ! 0 ! 1 ! 1 = False \<and>
   edge_mask [[[- 1, 0], [3, 2]]] [[[False, False], [True, False]]] ! 0 ! 0 ! 0 = False"
proof -
  have l: "shape3 1 2 2 [[[- 1, 0], [3, 2 :: int]]]" by (simp add: shape3_def shape2_def)
  have m: "shape3 1 2 2 [[[False, False], [True, False]]]" by (simp add: shape3_def shape2_def)
  note t = edge_mask_exact[OF l m]
  show ?thesis
    using t[THEN conjunct1] t[THEN conjunct2, rule_format, of 0 1 0]
      t[THEN conjunct2, rule_format, of 0 1 1] t[THEN conjunct2, rule_format, of 0 0 0]
    by simp
qed

lemma positions_bound:
  "(b, i, j) \<in> set (positions B n m) \<Longrightarrow> b < B \<and> i < n \<and> j < m"
  by (auto simp: positions_def)

lemma index_mask_known:
  assumes t: "shape3 B n m t" and l: "shape3 B n m labels" and k: "shape3 B n m msk"
  shows "index_mask t (edge_mask labels msk) =
           map (\<lambda>(b, i, j). t ! b ! i ! j) (known_positions B n m labels msk)"
proof -
  have "filter (\<lambda>(b, i, j). edge_mask labels msk ! b ! i ! j) (positions B n m) =
          known_positions B n m labels msk"
    unfolding known_positions_def
    using edge_mask_nth[OF l k] by (intro filter_cong refl) (auto dest!: positions_bound)
  then show ?thesis
    using index_mask_positions[OF t] edge_mask_shape[OF l k] by simp
qed

text \<open>
  Claim C9. For inputs of the documented shapes, \<open>loss\<close> returns
  \<open>interpolation * label_loss + (1 - interpolation) * edge_loss\<close> and the marginals, where
  \<open>edge_loss\<close> and the marginals are what the inference engine of the model returns for
  the scores, the mask and the arc-existence mask as a Long tensor, and \<open>label_loss\<close> is
  what the criterion of the model returns for the label scores and the gold labels at the
  positions, in row-major order, where the gold label is known and the structural mask is
  true; and whatever \<open>loss\<close> returns has that form. The engine is the class that the
  configuration names, built with \<open>max_iter\<close>, and the criterion is the cross-entropy of
  the library, as \<open>init\<close> sets them.
\<close>

theorem loss_value:
  assumes sl: "shape4 B n m L s_label" and l: "shape3 B n m labels" and k: "shape3 B n m msk"
  shows "(\<forall>edge_loss marginals label_loss.
            with_target (inference self) (s_egde, s_sib, s_cop, s_grd) msk
                (long (edge_mask labels msk)) = Inr (edge_loss, marginals) \<and>
            criterion self (map (\<lambda>(b, i, j). s_label ! b ! i ! j) (known_positions B n m labels msk))
                (map (\<lambda>(b, i, j). labels ! b ! i ! j) (known_positions B n m labels msk)) =
              Inr label_loss \<longrightarrow>
            loss self s_egde s_sib s_cop s_grd s_label labels msk =
              Inr (interpolation self * label_loss + (1 - interpolation self) * edge_loss,
                   marginals)) \<and>
         (\<forall>total marginals.
            loss self s_egde s_sib s_cop s_grd s_label labels msk = Inr (total, marginals) \<longrightarrow>
            (\<exists>edge_loss label_loss.
               with_target (inference self) (s_egde, s_sib, s_cop, s_grd) msk
                   (long (edge_mask labels msk)) = Inr (edge_loss, marginals) \<and>
               criterion self (map (\<lambda>(b, i, j). s_label ! b ! i ! j) (known_positions B n m labels msk))
                   (map (\<lambda>(b, i, j). labels ! b ! i ! j) (known_positions B n m labels msk)) =
                 Inr label_loss \<and>
               total = interpolation self * label_loss + (1 - interpolation self) * edge_loss)) \<and>
         inference (init MFVI LBP CrossEntropyLoss name max_iter a) =
           (if name = ''mfvi'' then MFVI max_iter else LBP max_iter) \<and>
         criterion (init MFVI LBP CrossEntropyLoss name max_iter a) = CrossEntropyLoss \<and>
         interpolation (init MFVI LBP CrossEntropyLoss name max_iter a) = a"
proof -
  have s: "index_mask s_label (edge_mask labels msk) =
             map (\<lambda>(b, i, j). s_label ! b ! i ! j) (known_positions B n m labels msk)"
    using shape4_shape3[OF sl] l k by (rule index_mask_known)
  have g: "index_mask labels (edge_mask labels msk) =
             map (\<lambda>(b, i, j). labels ! b ! i ! j) (known_positions B n m labels msk)"
    using l l k by (rule index_mask_known)
  have 1: "loss self s_egde s_sib s_cop s_grd s_label labels msk =
             Inr (interpolation self * label_loss + (1 - interpolation self) * edge_loss, marginals)"
    if "with_target (inference self) (s_egde, s_sib, s_cop, s_grd) msk
          (long (edge_mask labels msk)) = Inr (edge_loss, marginals)"
      "criterion self (map (\<lambda>(b, i, j). s_label ! b ! i ! j) (known_positions B n m labels msk))
          (map (\<lambda>(b, i, j). labels ! b ! i ! j) (known_positions B n m labels msk)) = Inr label_loss"
    for edge_loss marginals label_loss
    using that by (simp add: loss_def Let_def seq_def s g)
  have 2: "\<exists>edge_loss label_loss.
               with_target (inference self) (s_egde, s_sib, s_cop, s_grd) msk
                   (long (edge_mask labels msk)) = Inr (edge_loss, marginals) \<and>
               criterion self (map (\<lambda>(b, i, j). s_label ! b ! i ! j) (known_positions B n m labels msk))
                   (map (\<lambda>(b, i, j). labels ! b ! i ! j) (known_positions B n m labels msk)) =
                 Inr label_loss \<and>
               total = interpolation self * label_loss + (1 - interpolation self) * edge_loss"
    if "loss self s_egde s_sib s_cop s_grd s_label labels msk = Inr (total, marginals)"
    for total marginals
    using that by (auto simp: loss_def Let_def seq_def s g split: sum.splits prod.splits)
  have 3: "inference (init MFVI LBP CrossEntropyLoss name max_iter a) =
           (if name = ''mfvi'' then MFVI max_iter else LBP max_iter) \<and>
         criterion (init MFVI LBP CrossEntropyLoss name max_iter a) = CrossEntropyLoss \<and>
         interpolation (init MFVI LBP CrossEntropyLoss name max_iter a) = a"
    by (simp add: init_def)
  show ?thesis using 1 2 3 by blast
qed

theorem loss_value_witness:
  "loss \<lparr>interpolation = 1 / 10,
         inference = \<lparr>with_target = (\<lambda>sc k t. Inr (2, [[[1 / 2, 1 / 2], [1 / 2, 1 / 2]]])),
                      without_target = (\<lambda>sc k. Inr [[[1 / 2, 1 / 2], [1 / 2, 1 / 2]]])\<rparr>,
         criterion = (\<lambda>rows gold. Inr (real (length rows) + real_of_int (sum_list gold)))\<rparr>
     [] [] [] [] [[[[1, 2], [3, 4]], [[5, 6], [7, 8]]]] [[[- 1, 0], [3, 2]]]
     [[[False, False], [True, True]]] =
   Inr (5 / 2, [[[1 / 2, 1 / 2], [1 / 2, 1 / 2]]])"
proof -
  let ?self = "\<lparr>interpolation = 1 / 10,
         inference = \<lparr>with_target = (\<lambda>sc k t. Inr (2, [[[1 / 2, 1 / 2], [1 / 2, 1 / 2 :: real]]])),
                      without_target = (\<lambda>sc k. Inr [[[1 / 2, 1 / 2], [1 / 2, 1 / 2 :: real]]])\<rparr>,
         criterion = (\<lambda>rows gold. Inr (real (length rows) + real_of_int (sum_list gold)))\<rparr>"
  let ?s = "[[[[1, 2], [3, 4]], [[5, 6], [7, 8 :: real]]]]"
  let ?l = "[[[- 1, 0], [3, 2 :: int]]]"
  let ?k = "[[[False, False], [True, True]]]"
  have sl: "shape4 1 2 2 2 ?s" by (simp add: shape4_def shape3_def shape2_def)
  have l: "shape3 1 2 2 ?l" by (simp add: shape3_def shape2_def)
  have k: "shape3 1 2 2 ?k" by (simp add: shape3_def shape2_def)
  have p: "known_positions 1 2 2 ?l ?k = [(0, 1, 0), (0, 1, 1)]"
    by (simp add: known_positions_def positions_def numeral_2_eq_2)
  have "loss ?self [] [] [] [] ?s ?l ?k =
          Inr (interpolation ?self * 7 + (1 - interpolation ?self) * 2,
               [[[1 / 2, 1 / 2], [1 / 2, 1 / 2]]])"
    by (rule loss_value[OF sl l k, THEN conjunct1, rule_format]) (use p in simp)
  then show ?thesis by simp
qed

section \<open>Frame and determinism of \<open>decode\<close> and \<open>loss\<close>\<close>

lemma seq_Inr: "seq r f = Inr y \<longleftrightarrow> (\<exists>x. r = Inr x \<and> f x = Inr y)"
  by (cases r) (simp_all add: seq_def)

lemma get_float0_Inr: "get_float0 \<sigma> a = Inr x \<longleftrightarrow> a < length \<sigma> \<and> \<sigma> ! a = Float0 x"
  by (simp add: get_float0_def split: tensor.splits)

lemma get_float2_Inr: "get_float2 \<sigma> a = Inr x \<longleftrightarrow> a < length \<sigma> \<and> \<sigma> ! a = Float2 x"
  by (simp add: get_float2_def split: tensor.splits)

lemma get_float3_Inr: "get_float3 \<sigma> a = Inr x \<longleftrightarrow> a < length \<sigma> \<and> \<sigma> ! a = Float3 x"
  by (simp add: get_float3_def split: tensor.splits)

lemma get_float4_Inr: "get_float4 \<sigma> a = Inr x \<longleftrightarrow> a < length \<sigma> \<and> \<sigma> ! a = Float4 x"
  by (simp add: get_float4_def split: tensor.splits)

lemma get_long1_Inr: "get_long1 \<sigma> a = Inr x \<longleftrightarrow> a < length \<sigma> \<and> \<sigma> ! a = Long1 x"
  by (simp add: get_long1_def split: tensor.splits)

lemma get_long3_Inr: "get_long3 \<sigma> a = Inr x \<longleftrightarrow> a < length \<sigma> \<and> \<sigma> ! a = Long3 x"
  by (simp add: get_long3_def split: tensor.splits)

lemma get_bool3_Inr: "get_bool3 \<sigma> a = Inr x \<longleftrightarrow> a < length \<sigma> \<and> \<sigma> ! a = Bool3 x"
  by (simp add: get_bool3_def split: tensor.splits)

lemmas get_Inr = get_float0_Inr get_float2_Inr get_float3_Inr get_float4_Inr get_long1_Inr
  get_long3_Inr get_bool3_Inr

text \<open>Every operation but the in-place fill appends one tensor and returns its address.\<close>

lemma argmax_st_grows: "argmax_st \<sigma> t = Inr (\<sigma>', r) \<Longrightarrow> \<exists>v. \<sigma>' = \<sigma> @ [v] \<and> r = length \<sigma>"
  by (auto simp: argmax_st_def seq_Inr alloc_def)

lemma lt_st_grows: "lt_st \<sigma> t c = Inr (\<sigma>', r) \<Longrightarrow> \<exists>v. \<sigma>' = \<sigma> @ [v] \<and> r = length \<sigma>"
  by (auto simp: lt_st_def seq_Inr alloc_def)

lemma ge_st_grows: "ge_st \<sigma> t c = Inr (\<sigma>', r) \<Longrightarrow> \<exists>v. \<sigma>' = \<sigma> @ [v] \<and> r = length \<sigma>"
  by (auto simp: ge_st_def seq_Inr alloc_def)

lemma and_st_grows: "and_st \<sigma> s t = Inr (\<sigma>', r) \<Longrightarrow> \<exists>v. \<sigma>' = \<sigma> @ [v] \<and> r = length \<sigma>"
  by (auto simp: and_st_def seq_Inr alloc_def)

lemma long_st_grows: "long_st \<sigma> t = Inr (\<sigma>', r) \<Longrightarrow> \<exists>v. \<sigma>' = \<sigma> @ [v] \<and> r = length \<sigma>"
  by (auto simp: long_st_def seq_Inr alloc_def)

lemma index_float_st_grows:
  "index_float_st \<sigma> t k = Inr (\<sigma>', r) \<Longrightarrow> \<exists>v. \<sigma>' = \<sigma> @ [v] \<and> r = length \<sigma>"
  by (auto simp: index_float_st_def seq_Inr alloc_def)

lemma index_long_st_grows:
  "index_long_st \<sigma> t k = Inr (\<sigma>', r) \<Longrightarrow> \<exists>v. \<sigma>' = \<sigma> @ [v] \<and> r = length \<sigma>"
  by (auto simp: index_long_st_def seq_Inr alloc_def)

lemma mul_st_grows: "mul_st \<sigma> c t = Inr (\<sigma>', r) \<Longrightarrow> \<exists>v. \<sigma>' = \<sigma> @ [v] \<and> r = length \<sigma>"
  by (auto simp: mul_st_def seq_Inr alloc_def)

lemma add_st_grows: "add_st \<sigma> s t = Inr (\<sigma>', r) \<Longrightarrow> \<exists>v. \<sigma>' = \<sigma> @ [v] \<and> r = length \<sigma>"
  by (auto simp: add_st_def seq_Inr alloc_def)

lemma criterion_st_grows:
  "criterion_st self \<sigma> s t = Inr (\<sigma>', r) \<Longrightarrow> \<exists>v. \<sigma>' = \<sigma> @ [v] \<and> r = length \<sigma>"
  by (auto simp: criterion_st_def seq_Inr alloc_def)

lemma inference_st_grows:
  "inference_st self \<sigma> e s c g k t = Inr (\<sigma>', l, q) \<Longrightarrow>
     \<exists>v w. \<sigma>' = \<sigma> @ [v, w] \<and> l = length \<sigma> \<and> q = Suc (length \<sigma>)"
  by (auto simp: inference_st_def seq_Inr alloc_def)

lemma masked_fill_inplace_frame:
  "masked_fill_inplace \<sigma> t k v = Inr (\<sigma>', r) \<Longrightarrow>
     r = t \<and> t < length \<sigma> \<and> (\<exists>w. \<sigma>' = \<sigma>[t := w])"
  by (auto simp: masked_fill_inplace_def seq_Inr get_Inr)

lemma decode_st_frame:
  assumes "decode_st \<sigma> s_egde s_label = Inr (\<sigma>', r)"
  shows "\<exists>v w. \<sigma>' = \<sigma> @ [v, w] \<and> r = length \<sigma>"
proof -
  obtain \<sigma>1 a \<sigma>2 k where 1: "argmax_st \<sigma> s_label = Inr (\<sigma>1, a)"
    and 2: "lt_st \<sigma>1 s_egde (1 / 2) = Inr (\<sigma>2, k)"
    and 3: "masked_fill_inplace \<sigma>2 a k (- 1) = Inr (\<sigma>', r)"
    using assms by (auto simp: decode_st_def seq_Inr)
  obtain v where v: "\<sigma>1 = \<sigma> @ [v]" "a = length \<sigma>" using argmax_st_grows[OF 1] by blast
  obtain w where w: "\<sigma>2 = \<sigma>1 @ [w]" using lt_st_grows[OF 2] by blast
  obtain u where u: "\<sigma>' = \<sigma>2[a := u]" "r = a" using masked_fill_inplace_frame[OF 3] by blast
  have "\<sigma>' = \<sigma> @ [u, w]" by (simp add: u v w list_update_append)
  then show ?thesis using u v by blast
qed

lemma loss_st_frame:
  assumes "loss_st self \<sigma> s_egde s_sib s_cop s_grd s_label labels msk = Inr (\<sigma>', lo, mg)"
  shows "\<exists>new. \<sigma>' = \<sigma> @ new \<and> length new = 11 \<and> lo = length \<sigma> + 10 \<and> mg = length \<sigma> + 4"
proof -
  obtain \<sigma>1 known \<sigma>2 em \<sigma>3 target \<sigma>4 edge_loss \<sigma>5 rows \<sigma>6 gold \<sigma>7 label_loss \<sigma>8 x \<sigma>9 y
    where 1: "ge_st \<sigma> labels 0 = Inr (\<sigma>1, known)"
      and 2: "and_st \<sigma>1 known msk = Inr (\<sigma>2, em)"
      and 3: "long_st \<sigma>2 em = Inr (\<sigma>3, target)"
      and 4: "inference_st self \<sigma>3 s_egde s_sib s_cop s_grd msk target = Inr (\<sigma>4, edge_loss, mg)"
      and 5: "index_float_st \<sigma>4 s_label em = Inr (\<sigma>5, rows)"
      and 6: "index_long_st \<sigma>5 labels em = Inr (\<sigma>6, gold)"
      and 7: "criterion_st self \<sigma>6 rows gold = Inr (\<sigma>7, label_loss)"
      and 8: "mul_st \<sigma>7 (interpolation self) label_loss = Inr (\<sigma>8, x)"
      and 9: "mul_st \<sigma>8 (1 - interpolation self) edge_loss = Inr (\<sigma>9, y)"
      and 10: "add_st \<sigma>9 x y = Inr (\<sigma>', lo)"
    using assms unfolding loss_st_def seq_Inr by (elim exE conjE) (simp add: seq_Inr split: prod.splits, blast)
  show ?thesis
    using ge_st_grows[OF 1] and_st_grows[OF 2] long_st_grows[OF 3] inference_st_grows[OF 4]
      index_float_st_grows[OF 5] index_long_st_grows[OF 6] criterion_st_grows[OF 7]
      mul_st_grows[OF 8] mul_st_grows[OF 9] add_st_grows[OF 10]
    by auto
qed



lemma seq_Inr_apply: "seq (Inr x) f = f x"
  by (simp add: seq_def)

lemma seq_Inl_apply: "seq (Inl e) f = Inl e"
  by (simp add: seq_def)

lemma loss_st_exact:
  assumes a: "e < length \<sigma>" "s < length \<sigma>" "c < length \<sigma>" "g < length \<sigma>" "sl < length \<sigma>"
      "lb < length \<sigma>" "k < length \<sigma>"
    and t: "\<sigma> ! e = Float3 E" "\<sigma> ! s = Float4 S" "\<sigma> ! c = Float4 C" "\<sigma> ! g = Float4 G"
      "\<sigma> ! sl = Float4 SL" "\<sigma> ! lb = Long3 LB" "\<sigma> ! k = Bool3 K"
  shows "returned2 (loss_st self \<sigma> e s c g sl lb k) =
           (case loss self E S C G SL LB K of
              Inl x \<Rightarrow> Inl x
            | Inr (lo, mg) \<Rightarrow> Inr (Float0 lo, Float3 mg))"
proof -
  let ?n = "length \<sigma>"
  let ?em = "edge_mask LB K"
  let ?s3 = "\<sigma> @ [Bool3 (ge LB 0), Bool3 ?em, Long3 (long ?em)]"
  have 1: "ge_st \<sigma> lb 0 = Inr (\<sigma> @ [Bool3 (ge LB 0)], ?n)"
    using a t by (simp add: ge_st_def get_long3_def seq_def alloc_def)
  have 2: "and_st (\<sigma> @ [Bool3 (ge LB 0)]) ?n k = Inr (\<sigma> @ [Bool3 (ge LB 0), Bool3 ?em], ?n + 1)"
    using a t by (simp add: and_st_def get_bool3_def seq_def alloc_def nth_append edge_mask_def)
  have 3: "long_st (\<sigma> @ [Bool3 (ge LB 0), Bool3 ?em]) (?n + 1) = Inr (?s3, ?n + 2)"
    by (simp add: long_st_def get_bool3_def seq_def alloc_def nth_append)
  have 4: "inference_st self ?s3 e s c g k (?n + 2) =
             seq (with_target (inference self) (E, S, C, G) K (long ?em)) (\<lambda>(el, mg).
               Inr (?s3 @ [Float0 el, Float3 mg], ?n + 3, ?n + 4))"
    using a t
    by (simp add: inference_st_def get_float3_def get_float4_def get_bool3_def get_long3_def
        seq_def alloc_def nth_append split: sum.splits prod.splits)
  show ?thesis
  proof (cases "with_target (inference self) (E, S, C, G) K (long ?em)")
    case (Inl x)
    have "loss_st self \<sigma> e s c g sl lb k = Inl x"
      by (simp only: loss_st_def 1 2 3 4 Inl seq_Inr_apply seq_Inl_apply prod.case)
    then show ?thesis
      by (simp add: loss_def Inl seq_def returned2_def Let_def)
  next
    case (Inr p)
    obtain el mg where p: "p = (el, mg)" by (cases p)
    let ?s4 = "?s3 @ [Float0 el, Float3 mg]"
    let ?s6 = "?s4 @ [Float2 (index_mask SL ?em), Long1 (index_mask LB ?em)]"
    have 5: "index_float_st ?s4 sl (?n + 1) = Inr (?s4 @ [Float2 (index_mask SL ?em)], ?n + 5)"
      using a t by (simp add: index_float_st_def get_float4_def get_bool3_def seq_def alloc_def nth_append)
    have 6: "index_long_st (?s4 @ [Float2 (index_mask SL ?em)]) lb (?n + 1) = Inr (?s6, ?n + 6)"
      using a t by (simp add: index_long_st_def get_long3_def get_bool3_def seq_def alloc_def nth_append)
    have 7: "criterion_st self ?s6 (?n + 5) (?n + 6) =
               seq (criterion self (index_mask SL ?em) (index_mask LB ?em)) (\<lambda>ll.
                 Inr (?s6 @ [Float0 ll], ?n + 7))"
      by (simp add: criterion_st_def get_float2_def get_long1_def seq_def alloc_def nth_append
          split: sum.splits)
    show ?thesis
    proof (cases "criterion self (index_mask SL ?em) (index_mask LB ?em)")
      case (Inl x)
      have "loss_st self \<sigma> e s c g sl lb k = Inl x"
        by (simp only: loss_st_def 1 2 3 4 5 6 7 Inr p Inl seq_Inr_apply seq_Inl_apply prod.case)
      then show ?thesis
        by (simp add: loss_def Inr p Inl seq_def returned2_def Let_def)
    next
      case ll: (Inr ll)
      let ?s7 = "?s6 @ [Float0 ll]"
      let ?x = "interpolation self * ll"
      let ?y = "(1 - interpolation self) * el"
      have 8: "mul_st ?s7 (interpolation self) (?n + 7) = Inr (?s7 @ [Float0 ?x], ?n + 8)"
        by (simp add: mul_st_def get_float0_def seq_def alloc_def nth_append)
      have 9: "mul_st (?s7 @ [Float0 ?x]) (1 - interpolation self) (?n + 3) =
                 Inr ((?s7 @ [Float0 ?x]) @ [Float0 ?y], ?n + 9)"
        by (simp add: mul_st_def get_float0_def seq_def alloc_def nth_append)
      have 10: "add_st ((?s7 @ [Float0 ?x]) @ [Float0 ?y]) (?n + 8) (?n + 9) =
                  Inr (((?s7 @ [Float0 ?x]) @ [Float0 ?y]) @ [Float0 (?x + ?y)], ?n + 10)"
        by (simp add: add_st_def get_float0_def seq_def alloc_def nth_append)
      have r: "loss_st self \<sigma> e s c g sl lb k =
                 Inr (((?s7 @ [Float0 ?x]) @ [Float0 ?y]) @ [Float0 (?x + ?y)], ?n + 10, ?n + 4)"
        by (simp only: loss_st_def 1 2 3 4 5 6 7 8 9 10 Inr p ll seq_Inr_apply seq_Inl_apply prod.case)
      show ?thesis
        by (simp add: r loss_def Inr p ll seq_def returned2_def Let_def nth_append)
    qed
  qed
qed






text \<open>A call of \<open>decode\<close> on a store of two tensors, and a call of \<open>loss\<close> on values.\<close>

lemma example_decode_st:
  "decode_st [Float3 [[[7 / 10, 3 / 10], [1 / 2, 0]]],
              Float4 [[[[1, 5, 2], [4, 4, 1]], [[0, 0, 9], [3, 2, 1]]]]] 0 1 =
     Inr ([Float3 [[[7 / 10, 3 / 10], [1 / 2, 0]]],
           Float4 [[[[1, 5, 2], [4, 4, 1]], [[0, 0, 9], [3, 2, 1]]]],
           Long3 [[[1, - 1], [2, - 1]]], Bool3 [[[False, True], [False, True]]]], 2)"
  by (simp add: decode_st_def argmax_st_def lt_st_def masked_fill_inplace_def get_float3_def
      get_float4_def get_long3_def get_bool3_def seq_def alloc_def argmax_last_def argmax_def
      masked_fill_def lt_def)

lemma example_loss:
  "loss \<lparr>interpolation = 1 / 10,
         inference = \<lparr>with_target = (\<lambda>sc k t. Inr (2, fst sc)),
                      without_target = (\<lambda>sc k. Inr (fst sc))\<rparr>,
         criterion = (\<lambda>rows gold. Inr (real (length rows) + real_of_int (sum_list gold)))\<rparr>
     [[[7 / 10, 3 / 10], [1 / 2, 0]]] [] [] [] [[[[1, 5, 2], [4, 4, 1]], [[0, 0, 9], [3, 2, 1]]]]
     [[[- 1, 0], [3, 2]]] [[[False, False], [True, True]]] =
   Inr (5 / 2, [[[7 / 10, 3 / 10], [1 / 2, 0]]])"
  by (simp add: loss_def edge_mask_def logical_and_def ge_def long_def index_mask_def seq_def)

section \<open>The calls leave their arguments alone and depend on nothing else\<close>

text \<open>
  Claim C8. Neither \<open>decode\<close> nor \<open>loss\<close> changes a tensor of its caller. Whenever a call
  returns, every tensor that was in the store before the call, so each of the edge,
  sibling, co-parent, grandparent and label scores, the gold labels and the mask, holds
  what it held before; and every returned tensor (the labels of \<open>decode\<close>, the loss and the
  marginals of \<open>loss\<close>) is at an address that did not exist before the call. The loss and
  the marginals are two different tensors.
\<close>

theorem loss_decode_frame:
  "(decode_st \<sigma> s_egde s_label = Inr (\<sigma>', out) \<longrightarrow>
      (\<forall>a < length \<sigma>. \<sigma>' ! a = \<sigma> ! a) \<and> length \<sigma> \<le> out \<and> out < length \<sigma>') \<and>
   (loss_st self \<sigma> s_egde s_sib s_cop s_grd s_label labels msk = Inr (\<sigma>'', lo, mg) \<longrightarrow>
      (\<forall>a < length \<sigma>. \<sigma>'' ! a = \<sigma> ! a) \<and> length \<sigma> \<le> lo \<and> lo < length \<sigma>'' \<and>
      length \<sigma> \<le> mg \<and> mg < length \<sigma>'' \<and> lo \<noteq> mg)"
proof (rule conjI; rule impI)
  assume "decode_st \<sigma> s_egde s_label = Inr (\<sigma>', out)"
  then obtain v w where "\<sigma>' = \<sigma> @ [v, w]" "out = length \<sigma>"
    using decode_st_frame by blast
  then show "(\<forall>a < length \<sigma>. \<sigma>' ! a = \<sigma> ! a) \<and> length \<sigma> \<le> out \<and> out < length \<sigma>'"
    by (simp add: nth_append)
next
  assume "loss_st self \<sigma> s_egde s_sib s_cop s_grd s_label labels msk = Inr (\<sigma>'', lo, mg)"
  then obtain new where "\<sigma>'' = \<sigma> @ new" "length new = 11" "lo = length \<sigma> + 10"
    "mg = length \<sigma> + 4"
    using loss_st_frame by blast
  then show "(\<forall>a < length \<sigma>. \<sigma>'' ! a = \<sigma> ! a) \<and> length \<sigma> \<le> lo \<and> lo < length \<sigma>'' \<and>
      length \<sigma> \<le> mg \<and> mg < length \<sigma>'' \<and> lo \<noteq> mg"
    by (simp add: nth_append)
qed

theorem loss_decode_frame_witness:
  "\<exists>\<sigma>' out \<sigma>'' lo mg.
     decode_st [Float3 [[[7 / 10, 3 / 10], [1 / 2, 0]]],
                Float4 [[[[1, 5, 2], [4, 4, 1]], [[0, 0, 9], [3, 2, 1]]]]] 0 1 = Inr (\<sigma>', out) \<and>
     \<sigma>' ! 0 = Float3 [[[7 / 10, 3 / 10], [1 / 2, 0]]] \<and>
     \<sigma>' ! 1 = Float4 [[[[1, 5, 2], [4, 4, 1]], [[0, 0, 9], [3, 2, 1]]]] \<and>
     2 \<le> out \<and> out < length \<sigma>' \<and>
     loss_st \<lparr>interpolation = 1 / 10,
              inference = \<lparr>with_target = (\<lambda>sc k t. Inr (2, fst sc)),
                           without_target = (\<lambda>sc k. Inr (fst sc))\<rparr>,
              criterion = (\<lambda>rows gold. Inr (real (length rows) + real_of_int (sum_list gold)))\<rparr>
       [Float3 [[[7 / 10, 3 / 10], [1 / 2, 0]]],
        Float4 [[[[1, 5, 2], [4, 4, 1]], [[0, 0, 9], [3, 2, 1]]]], Float4 [],
        Long3 [[[- 1, 0], [3, 2]]], Bool3 [[[False, False], [True, True]]]] 0 2 2 2 1 3 4 =
       Inr (\<sigma>'', lo, mg) \<and>
     \<sigma>'' ! 0 = Float3 [[[7 / 10, 3 / 10], [1 / 2, 0]]] \<and>
     \<sigma>'' ! 1 = Float4 [[[[1, 5, 2], [4, 4, 1]], [[0, 0, 9], [3, 2, 1]]]] \<and>
     \<sigma>'' ! 2 = Float4 [] \<and> \<sigma>'' ! 3 = Long3 [[[- 1, 0], [3, 2]]] \<and>
     \<sigma>'' ! 4 = Bool3 [[[False, False], [True, True]]] \<and>
     5 \<le> lo \<and> lo < length \<sigma>'' \<and> 5 \<le> mg \<and> mg < length \<sigma>'' \<and> lo \<noteq> mg"
proof -
  let ?self = "\<lparr>interpolation = 1 / 10,
              inference = \<lparr>with_target = (\<lambda>sc k t. Inr (2, fst sc)),
                           without_target = (\<lambda>sc k. Inr (fst sc))\<rparr>,
              criterion = (\<lambda>rows gold. Inr (real (length rows) + real_of_int (sum_list gold)))\<rparr>"
  let ?E = "[[[7 / 10, 3 / 10], [1 / 2, 0 :: real]]]"
  let ?SL = "[[[[1, 5, 2], [4, 4, 1]], [[0, 0, 9], [3, 2, 1 :: real]]]]"
  let ?LB = "[[[- 1, 0], [3, 2 :: int]]]"
  let ?K = "[[[False, False], [True, True]]]"
  let ?D = "[Float3 ?E, Float4 ?SL]"
  let ?L = "[Float3 ?E, Float4 ?SL, Float4 [], Long3 ?LB, Bool3 ?K]"
  obtain \<sigma>' out where d: "decode_st ?D 0 1 = Inr (\<sigma>', out)"
    using example_decode_st by blast
  have "returned2 (loss_st ?self ?L 0 2 2 2 1 3 4) = Inr (Float0 (5 / 2), Float3 ?E)"
    using loss_st_exact[of 0 ?L 2 2 2 1 3 4 ?E "[]" "[]" "[]" ?SL ?LB ?K ?self]
    by (simp add: example_loss)
  then obtain \<sigma>'' lo mg where l: "loss_st ?self ?L 0 2 2 2 1 3 4 = Inr (\<sigma>'', lo, mg)"
    by (auto simp: returned2_def split: sum.splits)
  note fd = loss_decode_frame[THEN conjunct1, THEN mp, OF d]
  note fl = loss_decode_frame[THEN conjunct2, THEN mp, OF l]
  have "\<sigma>' ! 0 = ?D ! 0" "\<sigma>' ! 1 = ?D ! 1" "2 \<le> out" "out < length \<sigma>'"
    using fd[THEN conjunct1, rule_format, of 0] fd[THEN conjunct1, rule_format, of 1]
      fd[THEN conjunct2] by simp_all
  moreover have "\<sigma>'' ! 0 = ?L ! 0" "\<sigma>'' ! 1 = ?L ! 1" "\<sigma>'' ! 2 = ?L ! 2" "\<sigma>'' ! 3 = ?L ! 3"
    "\<sigma>'' ! 4 = ?L ! 4" "5 \<le> lo" "lo < length \<sigma>''" "5 \<le> mg" "mg < length \<sigma>''" "lo \<noteq> mg"
    using fl[THEN conjunct1, rule_format, of 0] fl[THEN conjunct1, rule_format, of 1]
      fl[THEN conjunct1, rule_format, of 2] fl[THEN conjunct1, rule_format, of 3]
      fl[THEN conjunct1, rule_format, of 4] fl[THEN conjunct2] by simp_all
  ultimately show ?thesis using d l by simp
qed




end
